theory Spec2Isabelle
  imports Complex_Main
begin

section \<open>Data model of \<^verbatim>\<open>squidpy/im/segment.py\<close>\<close>

text \<open>
  A label array is the two-dimensional integer array a segmentation backend returns for one
  crop: a list of rows, each a list of pixel labels. The source indexes it as
  \<^verbatim>\<open>crop_new[np.newaxis, :, :]\<close> and names the resulting axes \<^verbatim>\<open>mask, y, x\<close>, so it has
  exactly the two spatial axes.
\<close>

type_synonym label_array = "int list list"

text \<open>
  A NumPy array of integers has a fixed-width element type, and arithmetic that is stored
  back into the array wraps around in that type. The element type of the label arrays is a
  parameter of the model; the pixel values are integers within the range of the type.
\<close>

datatype np_dtype = int8 | int16 | int32 | int64 | uint8 | uint16 | uint32 | uint64

fun dtype_bits :: "np_dtype \<Rightarrow> nat" where
  "dtype_bits int8 = 8"
| "dtype_bits int16 = 16"
| "dtype_bits int32 = 32"
| "dtype_bits int64 = 64"
| "dtype_bits uint8 = 8"
| "dtype_bits uint16 = 16"
| "dtype_bits uint32 = 32"
| "dtype_bits uint64 = 64"

fun is_signed :: "np_dtype \<Rightarrow> bool" where
  "is_signed int8 = True"
| "is_signed int16 = True"
| "is_signed int32 = True"
| "is_signed int64 = True"
| "is_signed uint8 = False"
| "is_signed uint16 = False"
| "is_signed uint32 = False"
| "is_signed uint64 = False"

definition dtype_min :: "np_dtype \<Rightarrow> int" where
  "dtype_min dt = (if is_signed dt then - (2 ^ (dtype_bits dt - 1)) else 0)"

definition dtype_max :: "np_dtype \<Rightarrow> int" where
  "dtype_max dt = (if is_signed dt then 2 ^ (dtype_bits dt - 1) - 1 else 2 ^ dtype_bits dt - 1)"

text \<open>The value that is stored when the exact result \<open>z\<close> is written in the type \<open>dt\<close>.\<close>

definition wrap :: "np_dtype \<Rightarrow> int \<Rightarrow> int" where
  "wrap dt z =
     (if is_signed dt
      then (z + 2 ^ (dtype_bits dt - 1)) mod 2 ^ dtype_bits dt - 2 ^ (dtype_bits dt - 1)
      else z mod 2 ^ dtype_bits dt)"

text \<open>
  The enumeration \<^verbatim>\<open>SegmentationBackend\<close> is imported from \<^verbatim>\<open>squidpy.constants._constants\<close>; the
  module names three of its members. \<open>OTHER\<close> stands for any further member the enumeration
  may have.
\<close>

datatype SegmentationBackend = BLOB | WATERSHED | TENSORFLOW | OTHER string

text \<open>
  The value a \<^verbatim>\<open>NotImplementedError\<close> carries: the selector as the caller gave it, or a member
  of the enumeration.
\<close>

datatype offending = Selector string | Member SegmentationBackend

text \<open>
  The exceptions of the module. \<open>Raised\<close> is any exception that an external collaborator
  (image container, blob detector, watershed library, trained model) raises; the string
  identifies it.
\<close>

datatype error =
    ValueError string
  | IndexError string
  | KeyError string
  | AssertionError string
  | NotImplementedError offending
  | Raised string

text \<open>\<^verbatim>\<open>xr.DataArray(data, dims=[...])\<close>: the data with its axis names.\<close>

record data_array =
  dims :: "string list"
  vals :: "label_array list"

definition DataArray :: "label_array list \<Rightarrow> string list \<Rightarrow> data_array" where
  "DataArray d ds = \<lparr>dims = ds, vals = d\<rparr>"

section \<open>Label reconciliation (the loop of \<^verbatim>\<open>segment\<close>, lines 248-254)\<close>

text \<open>
  \<^verbatim>\<open>np.max(x)\<close>: the largest element of the array; NumPy raises \<^verbatim>\<open>ValueError\<close> on an array
  with no element.
\<close>

definition np_max :: "label_array \<Rightarrow> error + int" where
  "np_max x =
     (case concat x of
        [] \<Rightarrow> Inl (ValueError ''zero-size array to reduction operation maximum which has no identity'')
      | v # vs \<Rightarrow> Inr (foldl max v vs))"

text \<open>
  \<^verbatim>\<open>crop_new[crop_new > 0] = crop_new[crop_new > 0] + counter\<close>: for every pixel whose value is
  positive the sum with \<open>counter\<close> is stored back into the array, in the element type of the
  array; every other pixel is left as it is.
\<close>

definition offset_positive :: "np_dtype \<Rightarrow> int \<Rightarrow> label_array \<Rightarrow> label_array" where
  "offset_positive dt counter crop_new =
     map (map (\<lambda>v. if v > 0 then wrap dt (v + counter) else v)) crop_new"

text \<open>
  The loop \<^verbatim>\<open>for i, x in enumerate(crops)\<close>, started with the current value of \<open>counter\<close>, for
  crops of the element type \<open>dt\<close>. It returns the final counter and the rewritten list
  \<open>crops\<close>; an exception of \<^verbatim>\<open>np.max\<close> leaves the loop. \<^verbatim>\<open>counter += num_segments\<close> adds a NumPy
  scalar of the element type, and the counter is a scalar of that type from then on, so this
  sum wraps around as well. (With the value-based promotion of older NumPy the counter is a
  64-bit integer instead; the values stored in the arrays are the same, since the two
  counters agree modulo \<open>2 ^ dtype_bits dt\<close>.)
\<close>

fun reconcile :: "np_dtype \<Rightarrow> int \<Rightarrow> label_array list \<Rightarrow> error + (int \<times> data_array list)" where
  "reconcile dt counter [] = Inr (counter, [])"
| "reconcile dt counter (x # crops) =
     (case np_max x of
        Inl e \<Rightarrow> Inl e
      | Inr num_segments \<Rightarrow>
          (let crop_new = offset_positive dt counter x in
           case reconcile dt (wrap dt (counter + num_segments)) crops of
             Inl e \<Rightarrow> Inl e
           | Inr (c, rest) \<Rightarrow> Inr (c, DataArray [crop_new] [''mask'', ''y'', ''x''] # rest)))"

text \<open>Reading a reconciled crop back: its single \<open>mask\<close> plane, and the labels that occur.\<close>

definition plane :: "data_array \<Rightarrow> label_array" where
  "plane d = hd (vals d)"

definition labels :: "label_array \<Rightarrow> int set" where
  "labels x = set (concat x)"

definition pos_labels :: "label_array \<Rightarrow> int set" where
  "pos_labels x = {v \<in> labels x. 0 < v}"

text \<open>
  The counter that the loop, started at \<open>c\<close>, has reached when it comes to crop number \<open>i\<close>, and
  the sum of the maxima of the crops before crop number \<open>i\<close>.
\<close>

definition offset_at :: "np_dtype \<Rightarrow> int \<Rightarrow> label_array list \<Rightarrow> nat \<Rightarrow> int" where
  "offset_at dt c crops i = foldl (\<lambda>c x. wrap dt (c + Max (labels x))) c (take i crops)"

definition maxima_before :: "label_array list \<Rightarrow> nat \<Rightarrow> int" where
  "maxima_before crops i = sum_list (map (\<lambda>x. Max (labels x)) (take i crops))"

section \<open>Segment-centred crops (\<^verbatim>\<open>segment_crops\<close>, lines 285-292)\<close>

text \<open>
  The label layer that \<^verbatim>\<open>segment_crops\<close> reads is the array that \<^verbatim>\<open>segment\<close> stores: the crops
  are wrapped with the axes \<^verbatim>\<open>mask, y, x\<close> (line 254) and stitched and stored under the channel
  name \<^verbatim>\<open>mask\<close> (lines 256-258), so the layer has three axes, the first of them the mask
  axis. It is a list of planes, each a list of rows.

  The collaborators of \<^verbatim>\<open>segment_crops\<close> in the image container, which is not part of this
  module: \<^verbatim>\<open>img.data[key]\<close> reads a stored label layer (a \<^verbatim>\<open>KeyError\<close> when there is none), and
  \<^verbatim>\<open>img.crop_center(x, y, xs, ys, img_id)\<close> returns a crop or raises. Both only read the
  container. They are parameters of the model.
\<close>

type_synonym label_layer = "label_array list"

record ('img, 'crop) crop_ops =
  data_get :: "'img \<Rightarrow> string \<Rightarrow> error + label_layer"
  crop_center :: "'img \<Rightarrow> int \<Rightarrow> int \<Rightarrow> int option \<Rightarrow> int option \<Rightarrow> string \<Rightarrow> error + 'crop"

text \<open>\<^verbatim>\<open>np.unique(a)\<close>: the distinct values of the array, whatever its axes, sorted.\<close>

definition np_unique :: "label_layer \<Rightarrow> int list" where
  "np_unique a = sort (remdups (concat (concat a)))"

text \<open>
  \<^verbatim>\<open>np.where(a == i)\<close>: the positions (plane, row, column) of the elements equal to \<open>i\<close>, in
  the order of the array. The result of NumPy is one list of indices for each axis; component
  \<^verbatim>\<open>[0]\<close> is the list of the plane indices and component \<^verbatim>\<open>[1]\<close> the list of the row indices.
\<close>

definition row_hits :: "int \<Rightarrow> nat \<Rightarrow> nat \<Rightarrow> int list \<Rightarrow> (nat \<times> nat \<times> nat) list" where
  "row_hits i p r row = map (\<lambda>(c, v). (p, r, c)) (filter (\<lambda>(c, v). v = i) (enumerate 0 row))"

definition plane_hits :: "int \<Rightarrow> nat \<Rightarrow> label_array \<Rightarrow> (nat \<times> nat \<times> nat) list" where
  "plane_hits i p pl = concat (map (\<lambda>(r, row). row_hits i p r row) (enumerate 0 pl))"

definition np_where_eq :: "label_layer \<Rightarrow> int \<Rightarrow> (nat \<times> nat \<times> nat) list" where
  "np_where_eq a i = concat (map (\<lambda>(p, pl). plane_hits i p pl) (enumerate 0 a))"

definition where_0 :: "(nat \<times> nat \<times> nat) list \<Rightarrow> nat list" where
  "where_0 w = map (\<lambda>(p, r, c). p) w"

definition where_1 :: "(nat \<times> nat \<times> nat) list \<Rightarrow> nat list" where
  "where_1 w = map (\<lambda>(p, r, c). r) w"

text \<open>
  \<^verbatim>\<open>np.mean\<close> of a list of indices. NumPy returns a 64-bit float; the model takes the exact
  quotient (the index sums of an image are far below \<open>2\<^sup>5\<^sup>3\<close>, where the float sum is exact and
  the rounding of the quotient never reaches the next integer). The mean of no element is NaN,
  here \<open>None\<close>.
\<close>

definition np_mean :: "nat list \<Rightarrow> real option" where
  "np_mean xs = (if xs = [] then None else Some (real (sum_list xs) / real (length xs)))"

text \<open>\<^verbatim>\<open>int(x)\<close> of a float: truncation towards zero; \<^verbatim>\<open>ValueError\<close> on NaN.\<close>

definition py_int :: "real option \<Rightarrow> error + int" where
  "py_int x =
     (case x of
        None \<Rightarrow> Inl (ValueError ''cannot convert float NaN to integer'')
      | Some r \<Rightarrow> Inr (if 0 \<le> r then \<lfloor>r\<rfloor> else \<lceil>r\<rceil>))"

text \<open>
  The body of the first comprehension, for the label \<open>i\<close>: the means of the components
  \<^verbatim>\<open>[0]\<close> and \<^verbatim>\<open>[1]\<close> of \<^verbatim>\<open>np.where(img.data[segmented_img_id] == i)\<close>.
\<close>

definition segment_centre :: "label_layer \<Rightarrow> int \<Rightarrow> real option \<times> real option" where
  "segment_centre seg i =
     (np_mean (where_0 (np_where_eq seg i)), np_mean (where_1 (np_where_eq seg i)))"

text \<open>
  The labels the comprehension runs over:
  \<^verbatim>\<open>np.sort(list(set(np.unique(seg)) - {0}))\<close>. The order in which Python lists a set is of
  no account, since the list is sorted next.
\<close>

definition segment_ids :: "label_layer \<Rightarrow> int list" where
  "segment_ids seg = sort (removeAll 0 (np_unique seg))"

definition segment_centres :: "label_layer \<Rightarrow> (real option \<times> real option) list" where
  "segment_centres seg = map (segment_centre seg) (segment_ids seg)"

text \<open>
  The second comprehension: one call of \<^verbatim>\<open>crop_center\<close> for each centre, in order; the first
  exception ends it.
\<close>

fun crops_at ::
  "('img, 'crop) crop_ops \<Rightarrow> 'img \<Rightarrow> string \<Rightarrow> int option \<Rightarrow> int option \<Rightarrow>
     (real option \<times> real option) list \<Rightarrow> error + 'crop list" where
  "crops_at ops img img_id xs ys [] = Inr []"
| "crops_at ops img img_id xs ys ((xi, yi) # centres) =
     (case py_int xi of
        Inl e \<Rightarrow> Inl e
      | Inr x \<Rightarrow>
          (case py_int yi of
             Inl e \<Rightarrow> Inl e
           | Inr y \<Rightarrow>
               (case crop_center ops img x y xs ys img_id of
                  Inl e \<Rightarrow> Inl e
                | Inr c \<Rightarrow>
                    (case crops_at ops img img_id xs ys centres of
                       Inl e \<Rightarrow> Inl e
                     | Inr cs \<Rightarrow> Inr (c # cs)))))"

definition segment_crops ::
  "('img, 'crop) crop_ops \<Rightarrow> 'img \<Rightarrow> string \<Rightarrow> string \<Rightarrow> int option \<Rightarrow> int option \<Rightarrow>
     error + 'crop list" where
  "segment_crops ops img img_id segmented_img_id xs ys =
     (case data_get ops img segmented_img_id of
        Inl e \<Rightarrow> Inl e
      | Inr seg \<Rightarrow> crops_at ops img img_id xs ys (segment_centres seg))"

text \<open>
  For the statements about \<^verbatim>\<open>segment_crops\<close>: the set of the labels of a layer, and a container
  interface whose \<^verbatim>\<open>crop_center\<close> answers with the centre \<open>(x, y)\<close> it was asked for, which makes
  the requests of \<^verbatim>\<open>segment_crops\<close> visible in its result.
\<close>

definition layer_labels :: "label_layer \<Rightarrow> int set" where
  "layer_labels seg = set (concat (concat seg))"

definition echo_ops :: "label_layer \<Rightarrow> (unit, int \<times> int) crop_ops" where
  "echo_ops seg = \<lparr>data_get = (\<lambda>img key. Inr seg), crop_center = (\<lambda>img x y xs ys img_id. Inr (x, y))\<rparr>"

section \<open>Segmentation backends (classes \<^verbatim>\<open>SegmentationModel*\<close>, lines 34-181)\<close>

text \<open>
  A pixel intensity is a float: a real number, an infinity, or NaN. NumPy compares floats as
  IEEE 754 does: every comparison with NaN is false.
\<close>

datatype npfloat = NaN | NegInf | Finite real | PosInf

fun float_ge :: "npfloat \<Rightarrow> npfloat \<Rightarrow> bool" where
  "float_ge NaN t = False"
| "float_ge v NaN = False"
| "float_ge PosInf t = True"
| "float_ge v NegInf = True"
| "float_ge (Finite a) (Finite b) = (a \<ge> b)"
| "float_ge v t = False"

fun float_lt :: "npfloat \<Rightarrow> npfloat \<Rightarrow> bool" where
  "float_lt NaN t = False"
| "float_lt v NaN = False"
| "float_lt (Finite a) (Finite b) = (a < b)"
| "float_lt v NegInf = False"
| "float_lt NegInf t = True"
| "float_lt PosInf t = False"
| "float_lt (Finite a) PosInf = True"

text \<open>\<^verbatim>\<open>0.0 - v\<close>.\<close>

fun zero_minus :: "npfloat \<Rightarrow> npfloat" where
  "zero_minus NaN = NaN"
| "zero_minus NegInf = PosInf"
| "zero_minus (Finite a) = Finite (0 - a)"
| "zero_minus PosInf = NegInf"

text \<open>
  The image array handed to a backend: an n-dimensional NumPy array, given by its shape and
  its elements in row-major order. Arithmetic and comparison with a scalar work element by
  element.
\<close>

datatype 'a ndarray = NDArray (shape: "nat list") (flat: "'a list")

text \<open>
  \<^verbatim>\<open>model_instance\<close>: \<^verbatim>\<open>None\<close>, the name of a method as a string, or a model object.
\<close>

datatype 'm model_instance = PyNone | PyStr string | PyObj 'm

text \<open>
  The keyword arguments \<^verbatim>\<open>model_kwargs\<close>: the three keywords that the backends of this module
  take themselves, each present or not, and the remaining ones.
\<close>

record 'kw model_kwargs =
  kw_invert :: "bool option"
  kw_thresh :: "npfloat option"
  kw_geq :: "bool option"
  kw_rest :: 'kw

text \<open>
  The routines of \<^verbatim>\<open>skimage\<close>, \<^verbatim>\<open>scipy.ndimage\<close> and \<^verbatim>\<open>tensorflow\<close> that the backends call. They
  are not part of this module and are parameters of the model; each returns its result or
  raises. \<open>keras_check\<close> is \<^verbatim>\<open>isinstance(model, tf.keras.model.Model)\<close> after the import of
  \<^verbatim>\<open>tensorflow\<close>, \<open>call_model\<close> is the call \<^verbatim>\<open>self.model(arr, **kwargs)\<close>, \<open>obj_str\<close> is \<^verbatim>\<open>str\<close> of
  a model object, and \<open>label_dtype\<close> is the element type of the label arrays that the routines
  return.
\<close>

record ('m, 'kw) backend_ops =
  blob_log :: "npfloat ndarray \<Rightarrow> 'kw model_kwargs \<Rightarrow> error + label_array"
  blob_dog :: "npfloat ndarray \<Rightarrow> 'kw model_kwargs \<Rightarrow> error + label_array"
  blob_doh :: "npfloat ndarray \<Rightarrow> 'kw model_kwargs \<Rightarrow> error + label_array"
  distance_transform_edt :: "int ndarray \<Rightarrow> error + npfloat ndarray"
  peak_local_max :: "npfloat ndarray \<Rightarrow> bool \<Rightarrow> real ndarray \<Rightarrow> int ndarray \<Rightarrow> error + bool ndarray"
  ndi_label :: "bool ndarray \<Rightarrow> error + (int ndarray \<times> nat)"
  invert :: "npfloat ndarray \<Rightarrow> error + npfloat ndarray"
  watershed :: "npfloat ndarray \<Rightarrow> int ndarray \<Rightarrow> int ndarray \<Rightarrow> error + label_array"
  keras_check :: "'m model_instance \<Rightarrow> error + bool"
  call_model :: "'m model_instance \<Rightarrow> npfloat ndarray \<Rightarrow> 'kw model_kwargs \<Rightarrow> error + label_array"
  obj_str :: "'m \<Rightarrow> string"
  label_dtype :: np_dtype

text \<open>\<^verbatim>\<open>"%s" % self.model\<close>.\<close>

definition py_str :: "('m, 'kw) backend_ops \<Rightarrow> 'm model_instance \<Rightarrow> string" where
  "py_str bops model = (case model of PyNone \<Rightarrow> ''None'' | PyStr s \<Rightarrow> s | PyObj m \<Rightarrow> obj_str bops m)"

text \<open>
  \<^verbatim>\<open>SegmentationModelBlob._segment(img, invert=True, **kwargs)\<close>. The keyword \<^verbatim>\<open>invert\<close> is
  taken by the method, all the others are passed on.
\<close>

definition Blob_segment ::
  "('m, 'kw) backend_ops \<Rightarrow> 'm model_instance \<Rightarrow> npfloat ndarray \<Rightarrow> 'kw model_kwargs \<Rightarrow>
     error + label_array" where
  "Blob_segment bops model img kwargs =
     (let invert = (case kw_invert kwargs of None \<Rightarrow> True | Some b \<Rightarrow> b);
          img = (if invert then map_ndarray zero_minus img else img);
          kwargs = kwargs\<lparr>kw_invert := None\<rparr>
      in if model = PyStr ''log'' then blob_log bops img kwargs
         else if model = PyStr ''dog'' then blob_dog bops img kwargs
         else if model = PyStr ''doh'' then blob_doh bops img kwargs
         else Inl (ValueError (''did not recognize self.model '' @ py_str bops model)))"

text \<open>\<^verbatim>\<open>np.ones((5, 5))\<close>.\<close>

definition np_ones_5_5 :: "real ndarray" where
  "np_ones_5_5 = NDArray [5, 5] (replicate 25 1)"

text \<open>\<^verbatim>\<open>1 - mask\<close> for a boolean array: 0 where the mask holds, 1 elsewhere.\<close>

definition one_minus :: "bool ndarray \<Rightarrow> int ndarray" where
  "one_minus mask' = map_ndarray (\<lambda>b. 1 - (if b then 1 else 0)) mask'"

text \<open>
  \<^verbatim>\<open>SegmentationModelWatershed._segment(arr, thresh=0.5, geq=True, **kwargs)\<close>. The remaining
  keywords are not used. The variable \<^verbatim>\<open>mask\<close> of the source is \<open>mask'\<close> here.
\<close>

definition Watershed_segment ::
  "('m, 'kw) backend_ops \<Rightarrow> 'm model_instance \<Rightarrow> npfloat ndarray \<Rightarrow> 'kw model_kwargs \<Rightarrow>
     error + label_array" where
  "Watershed_segment bops model arr kwargs =
     (let thresh = (case kw_thresh kwargs of None \<Rightarrow> Finite 0.5 | Some t \<Rightarrow> t);
          geq = (case kw_geq kwargs of None \<Rightarrow> True | Some b \<Rightarrow> b);
          mask' = (if geq then map_ndarray (\<lambda>v. float_ge v thresh) arr
                  else map_ndarray (\<lambda>v. float_lt v thresh) arr)
      in case distance_transform_edt bops (one_minus mask') of
           Inl e \<Rightarrow> Inl e
         | Inr distance \<Rightarrow>
             (case peak_local_max bops distance False np_ones_5_5 (one_minus mask') of
                Inl e \<Rightarrow> Inl e
              | Inr local_maxi \<Rightarrow>
                  (case ndi_label bops local_maxi of
                     Inl e \<Rightarrow> Inl e
                   | Inr (markers, n) \<Rightarrow>
                       (case invert bops arr of
                          Inl e \<Rightarrow> Inl e
                        | Inr inverted \<Rightarrow> watershed bops inverted markers (one_minus mask')))))"

text \<open>\<^verbatim>\<open>SegmentationModelPretrainedTensorflow._segment(arr, **kwargs)\<close>.\<close>

definition Tensorflow_segment ::
  "('m, 'kw) backend_ops \<Rightarrow> 'm model_instance \<Rightarrow> npfloat ndarray \<Rightarrow> 'kw model_kwargs \<Rightarrow>
     error + label_array" where
  "Tensorflow_segment bops model arr kwargs = call_model bops model arr kwargs"

text \<open>The three classes, each holding \<^verbatim>\<open>self.model\<close>, and the method \<^verbatim>\<open>segment\<close> of the base class.\<close>

datatype 'm segmentation_model =
    SegmentationModelBlob "'m model_instance"
  | SegmentationModelWatershed "'m model_instance"
  | SegmentationModelPretrainedTensorflow "'m model_instance"

definition SegmentationModel_segment ::
  "('m, 'kw) backend_ops \<Rightarrow> 'm segmentation_model \<Rightarrow> npfloat ndarray \<Rightarrow> 'kw model_kwargs \<Rightarrow>
     error + label_array" where
  "SegmentationModel_segment bops self img kwargs =
     (case self of
        SegmentationModelBlob model \<Rightarrow> Blob_segment bops model img kwargs
      | SegmentationModelWatershed model \<Rightarrow> Watershed_segment bops model img kwargs
      | SegmentationModelPretrainedTensorflow model \<Rightarrow> Tensorflow_segment bops model img kwargs)"

text \<open>
  The constructors. Those of the blob and the watershed class store the model; that of the
  tensorflow class imports \<^verbatim>\<open>tensorflow\<close> and asserts that the model is a keras model first.
\<close>

definition SegmentationModelPretrainedTensorflow_init ::
  "('m, 'kw) backend_ops \<Rightarrow> 'm model_instance \<Rightarrow> error + 'm segmentation_model" where
  "SegmentationModelPretrainedTensorflow_init bops model =
     (case keras_check bops model of
        Inl e \<Rightarrow> Inl e
      | Inr ok \<Rightarrow>
          if ok then Inr (SegmentationModelPretrainedTensorflow model)
          else Inl (AssertionError ''Model should be a tensorflow.keras.model instance.''))"




text \<open>
  Stand-ins for the external routines, to observe what a backend passes to them: every blob
  routine and the model call raise; the distance transform, the maxima and the labelling
  return fixed arrays; \<open>watershed\<close> answers with the mask it was given, as one row.
\<close>

definition probe_ops :: "(unit, unit) backend_ops" where
  "probe_ops =
     \<lparr>blob_log = (\<lambda>img kw. Inl (Raised ''blob_log called'')),
      blob_dog = (\<lambda>img kw. Inl (Raised ''blob_dog called'')),
      blob_doh = (\<lambda>img kw. Inl (Raised ''blob_doh called'')),
      distance_transform_edt = (\<lambda>m. Inr (map_ndarray (\<lambda>z. Finite (real_of_int z)) m)),
      peak_local_max = (\<lambda>d indices footprint labels. Inr (map_ndarray (\<lambda>v. v \<noteq> 0) labels)),
      ndi_label = (\<lambda>m. Inr (map_ndarray (\<lambda>b. if b then 1 else 0) m, 1)),
      invert = (\<lambda>a. Inr (map_ndarray zero_minus a)),
      watershed = (\<lambda>a markers mask'. Inr [flat mask']),
      keras_check = (\<lambda>m. Inr False),
      call_model = (\<lambda>m a kw. Inl (Raised ''model called'')),
      obj_str = (\<lambda>u. ''object''),
      label_dtype = int32\<rparr>"

section \<open>The orchestration (\<^verbatim>\<open>segment\<close>, lines 186-258)\<close>

text \<open>
  The collaborators of \<^verbatim>\<open>segment\<close> outside this module, as parameters of the model:
  \<open>SegmentationBackend_call\<close> is the call \<^verbatim>\<open>SegmentationBackend(model_group)\<close> of the enumeration
  class and \<open>enum_s\<close> the attribute \<^verbatim>\<open>.s\<close> of a member; \<open>crop_equally\<close>, \<open>img_shape\<close> and \<open>add_img\<close>
  are the methods of the image container (only \<open>add_img\<close> changes the container, and it
  returns the container as it leaves it, with its outcome); \<open>n_channels\<close> is
  \<^verbatim>\<open>x.channels.shape[0]\<close> and \<open>select_channels\<close> is \<^verbatim>\<open>x[{"channels": channel_slice}].values\<close> of a
  crop; \<open>uncrop_img\<close> is the stitcher of \<^verbatim>\<open>squidpy.im.crop\<close>.
\<close>

datatype channel_slice = Slice nat nat | Index int

record ('img, 'crop, 'merged) segment_ops =
  SegmentationBackend_call :: "string \<Rightarrow> error + SegmentationBackend"
  enum_s :: "SegmentationBackend \<Rightarrow> string"
  crop_equally :: "'img \<Rightarrow> int option \<Rightarrow> int option \<Rightarrow> string \<Rightarrow> error + ('crop list \<times> int list \<times> int list)"
  n_channels :: "'crop \<Rightarrow> nat"
  select_channels :: "'crop \<Rightarrow> channel_slice \<Rightarrow> error + npfloat ndarray"
  uncrop_img :: "data_array list \<Rightarrow> int list \<Rightarrow> int list \<Rightarrow> nat list \<Rightarrow> string \<Rightarrow> error + 'merged"
  img_shape :: "'img \<Rightarrow> nat list"
  add_img :: "'img \<Rightarrow> 'merged \<Rightarrow> string \<Rightarrow> string \<Rightarrow> 'img \<times> (error + unit)"

text \<open>The choice of the backend class (lines 233-240).\<close>

definition make_model ::
  "('m, 'kw) backend_ops \<Rightarrow> SegmentationBackend \<Rightarrow> 'm model_instance \<Rightarrow> error + 'm segmentation_model" where
  "make_model bops model_group model_instance =
     (if model_group = BLOB then Inr (SegmentationModelBlob model_instance)
      else if model_group = WATERSHED then Inr (SegmentationModelWatershed model_instance)
      else if model_group = TENSORFLOW then SegmentationModelPretrainedTensorflow_init bops model_instance
      else Inl (NotImplementedError (Member model_group)))"

text \<open>
  Line 243: \<^verbatim>\<open>slice(0, crops[0].channels.shape[0]) if channel_idx is None else channel_idx\<close>;
  \<^verbatim>\<open>crops[0]\<close> of an empty list raises \<^verbatim>\<open>IndexError\<close>.
\<close>

definition channel_slice_of ::
  "('img, 'crop, 'merged) segment_ops \<Rightarrow> 'crop list \<Rightarrow> int option \<Rightarrow> error + channel_slice" where
  "channel_slice_of sops crops channel_idx =
     (case channel_idx of
        None \<Rightarrow>
          (case crops of
             [] \<Rightarrow> Inl (IndexError ''list index out of range'')
           | c # _ \<Rightarrow> Inr (Slice 0 (n_channels sops c)))
      | Some i \<Rightarrow> Inr (Index i))"

text \<open>
  Line 244, the comprehension over the crops: the backend is run on the selected channels of
  each crop in turn; the first exception ends it.
\<close>

definition segment_one ::
  "('img, 'crop, 'merged) segment_ops \<Rightarrow> ('m, 'kw) backend_ops \<Rightarrow> 'm segmentation_model \<Rightarrow>
     channel_slice \<Rightarrow> 'kw model_kwargs \<Rightarrow> 'crop \<Rightarrow> error + label_array" where
  "segment_one sops bops segmentation_model channel_slice' model_kwargs x =
     (case select_channels sops x channel_slice' of
        Inl e \<Rightarrow> Inl e
      | Inr arr \<Rightarrow> SegmentationModel_segment bops segmentation_model arr model_kwargs)"

fun segment_all ::
  "('img, 'crop, 'merged) segment_ops \<Rightarrow> ('m, 'kw) backend_ops \<Rightarrow> 'm segmentation_model \<Rightarrow>
     channel_slice \<Rightarrow> 'kw model_kwargs \<Rightarrow> 'crop list \<Rightarrow> error + label_array list" where
  "segment_all sops bops sm cs kw [] = Inr []"
| "segment_all sops bops sm cs kw (x # crops) =
     (case segment_one sops bops sm cs kw x of
        Inl e \<Rightarrow> Inl e
      | Inr l \<Rightarrow>
          (case segment_all sops bops sm cs kw crops of
             Inl e \<Rightarrow> Inl e
           | Inr ls \<Rightarrow> Inr (l # ls)))"

text \<open>
  \<^verbatim>\<open>segment\<close>. The result is the image container as the call leaves it, with the outcome of
  the call: \<open>Inr ()\<close> for a return, \<open>Inl e\<close> for the exception \<open>e\<close>. The reconciliation loop runs
  in the element type of the label arrays that the backend returned.
\<close>

definition segment ::
  "('img, 'crop, 'merged) segment_ops \<Rightarrow> ('m, 'kw) backend_ops \<Rightarrow> 'img \<Rightarrow> string \<Rightarrow> string \<Rightarrow>
     'm model_instance \<Rightarrow> 'kw model_kwargs \<Rightarrow> int option \<Rightarrow> int option \<Rightarrow> int option \<Rightarrow>
     string option \<Rightarrow> 'img \<times> (error + unit)" where
  "segment sops bops img img_id model_group model_instance model_kwargs channel_idx xs ys key_added =
     (let channel_id = ''mask'' in
      case SegmentationBackend_call sops model_group of
        Inl e \<Rightarrow> (img, Inl e)
      | Inr model_group' \<Rightarrow>
     (case make_model bops model_group' model_instance of
        Inl e \<Rightarrow> (img, Inl e)
      | Inr segmentation_model \<Rightarrow>
     (case crop_equally sops img xs ys img_id of
        Inl e \<Rightarrow> (img, Inl e)
      | Inr (crops, xcoord, ycoord) \<Rightarrow>
     (case channel_slice_of sops crops channel_idx of
        Inl e \<Rightarrow> (img, Inl e)
      | Inr channel_slice' \<Rightarrow>
     (case segment_all sops bops segmentation_model channel_slice' model_kwargs crops of
        Inl e \<Rightarrow> (img, Inl e)
      | Inr crops' \<Rightarrow>
     (case reconcile (label_dtype bops) 0 crops' of
        Inl e \<Rightarrow> (img, Inl e)
      | Inr (counter, crops'') \<Rightarrow>
     (case uncrop_img sops crops'' xcoord ycoord (rev (img_shape sops img)) channel_id of
        Inl e \<Rightarrow> (img, Inl e)
      | Inr img_segmented \<Rightarrow>
          add_img sops img img_segmented
            (case key_added of None \<Rightarrow> ''segmented_'' @ enum_s sops model_group' | Some k \<Rightarrow> k)
            channel_id)))))))"

text \<open>
  Modelled from the spec: the class \<^verbatim>\<open>SegmentationBackend\<close> of
  \<^verbatim>\<open>squidpy.constants._constants\<close>, whose call converts the selector, is not among the sources.
  The specification (4.2 step 1, 6 and 7) has the selector resolved to a concrete enumerated
  value, one of the named variants, and has the resolution fail for an unrecognized selector
  with a "not implemented" failure that names the offending value. The names of the variants
  are not given: \<open>variant_of\<close>, the table from the names to the members, is a parameter.
\<close>

definition spec_SegmentationBackend_call ::
  "(string \<Rightarrow> SegmentationBackend option) \<Rightarrow> string \<Rightarrow> error + SegmentationBackend" where
  "spec_SegmentationBackend_call variant_of v =
     (case variant_of v of
        Some g \<Rightarrow> Inr g
      | None \<Rightarrow> Inl (NotImplementedError (Selector v)))"

text \<open>A table of three names, for the instances below.\<close>

definition three_variants :: "string \<Rightarrow> SegmentationBackend option" where
  "three_variants v =
     (if v = ''blob'' then Some BLOB
      else if v = ''watershed'' then Some WATERSHED
      else if v = ''tensorflow'' then Some TENSORFLOW
      else None)"

text \<open>
  A container interface in which each method of the container and the stitcher report their
  call by raising, and \<open>add_img\<close> marks the container as changed.
\<close>

definition trace_ops :: "(bool, unit, unit) segment_ops" where
  "trace_ops =
     \<lparr>SegmentationBackend_call = spec_SegmentationBackend_call three_variants,
      enum_s = (\<lambda>g. ''backend''),
      crop_equally = (\<lambda>img xs ys img_id. Inl (Raised ''crop_equally called'')),
      n_channels = (\<lambda>c. 1),
      select_channels = (\<lambda>c cs. Inl (Raised ''crop read'')),
      uncrop_img = (\<lambda>crops x y shp channel_id. Inl (Raised ''uncrop_img called'')),
      img_shape = (\<lambda>img. [1, 1]),
      add_img = (\<lambda>img merged img_id channel_id. (True, Inr ()))\<rparr>"

text \<open>
  A container with two crops, numbered 0 and 1, of one pixel each (the pixel holds the
  number of the crop), a stitcher that reports its call by raising and an \<open>add_img\<close> that marks
  the container as changed, with an enumeration whose call resolves every selector to \<open>BLOB\<close>;
  and blob routines of which \<open>blob_log\<close> succeeds on the first crop only.
\<close>

definition two_crop_ops :: "(bool, nat, unit) segment_ops" where
  "two_crop_ops =
     \<lparr>SegmentationBackend_call = (\<lambda>v. Inr BLOB),
      enum_s = (\<lambda>g. ''backend''),
      crop_equally = (\<lambda>img xs ys img_id. Inr ([0, 1], [0, 0], [0, 1])),
      n_channels = (\<lambda>c. 1),
      select_channels = (\<lambda>c cs. Inr (NDArray [1, 1] [Finite (real c)])),
      uncrop_img = (\<lambda>crops x y shp channel_id. Inl (Raised ''uncrop_img called'')),
      img_shape = (\<lambda>img. [2, 1]),
      add_img = (\<lambda>img merged img_id channel_id. (True, Inr ()))\<rparr>"

definition failing_blob_ops :: "(unit, unit) backend_ops" where
  "failing_blob_ops =
     probe_ops\<lparr>blob_log := (\<lambda>img kw. if flat img = [Finite 0] then Inr [[0, 1]]
                                    else Inl (Raised ''blob_log failed''))\<rparr>"

section \<open>Properties of the reconciliation loop\<close>

lemma foldl_max_Max: "foldl max (v::int) vs = Max (set (v # vs))"
proof (induction vs arbitrary: v)
  case Nil
  show ?case by simp
next
  case (Cons w ws)
  have "foldl max v (w # ws) = Max (set (max v w # ws))"
    using Cons.IH [of "max v w"] by simp
  also have "\<dots> = Max (set (v # w # ws))"
    by (cases ws) (simp_all add: max.assoc)
  finally show ?case .
qed

lemma np_max_Inr: "labels x \<noteq> {} \<Longrightarrow> np_max x = Inr (Max (labels x))"
  by (cases "concat x") (simp_all add: np_max_def labels_def foldl_max_Max del: foldl.simps)

lemma np_max_Inl:
  "labels x = {} \<Longrightarrow>
     np_max x = Inl (ValueError ''zero-size array to reduction operation maximum which has no identity'')"
  by (cases "concat x") (simp_all add: np_max_def labels_def del: concat_eq_Nil_conv)

lemma np_max_cases:
  "np_max x = Inr m \<Longrightarrow> labels x \<noteq> {} \<and> m = Max (labels x)"
  by (cases "concat x") (simp_all add: np_max_def labels_def foldl_max_Max del: foldl.simps)

lemma reconcile_total:
  "\<forall>x \<in> set crops. labels x \<noteq> {} \<Longrightarrow> \<exists>c' out. reconcile dt c crops = Inr (c', out)"
proof (induction crops arbitrary: c)
  case Nil
  show ?case by simp
next
  case (Cons x crops)
  then obtain c' out where "reconcile dt (wrap dt (c + Max (labels x))) crops = Inr (c', out)"
    by fastforce
  with Cons.prems show ?case
    by (simp add: np_max_Inr)
qed

lemma reconcile_closed_form:
  "reconcile dt c crops = Inr (c', out) \<Longrightarrow>
     c' = offset_at dt c crops (length crops) \<and>
     length out = length crops \<and>
     (\<forall>i < length crops. labels (crops ! i) \<noteq> {} \<and>
        out ! i = DataArray [offset_positive dt (offset_at dt c crops i) (crops ! i)] [''mask'', ''y'', ''x''])"
proof (induction crops arbitrary: c c' out)
  case Nil
  then show ?case by (simp add: offset_at_def)
next
  case (Cons x crops)
  from Cons.prems obtain m rest where
    m: "np_max x = Inr m" and
    r: "reconcile dt (wrap dt (c + m)) crops = Inr (c', rest)" and
    o: "out = DataArray [offset_positive dt c x] [''mask'', ''y'', ''x''] # rest"
    by (auto split: sum.splits prod.splits)
  from np_max_cases [OF m] have ne: "labels x \<noteq> {}" and mm: "m = Max (labels x)"
    by simp_all
  note ih = Cons.IH [OF r]
  have shift: "offset_at dt (wrap dt (c + m)) crops j = offset_at dt c (x # crops) (Suc j)" for j
    by (simp add: offset_at_def mm)
  have "c' = offset_at dt c (x # crops) (length (x # crops))"
    using ih shift by simp
  moreover have "length out = length (x # crops)"
    using ih o by simp
  moreover have "labels ((x # crops) ! i) \<noteq> {} \<and>
      out ! i = DataArray [offset_positive dt (offset_at dt c (x # crops) i) ((x # crops) ! i)] [''mask'', ''y'', ''x'']"
    if "i < length (x # crops)" for i
  proof (cases i)
    case 0
    then show ?thesis using ne o by (simp add: offset_at_def)
  next
    case (Suc j)
    with that have "j < length crops" by simp
    with ih have "labels (crops ! j) \<noteq> {} \<and>
        rest ! j = DataArray [offset_positive dt (offset_at dt (wrap dt (c + m)) crops j) (crops ! j)] [''mask'', ''y'', ''x'']"
      by blast
    then show ?thesis using Suc o shift by simp
  qed
  ultimately show ?case by blast
qed

lemma reconcile_zero_size:
  assumes "x \<in> set crops" and "labels x = {}"
  shows "reconcile dt c crops =
           Inl (ValueError ''zero-size array to reduction operation maximum which has no identity'')"
  using assms
proof (induction crops arbitrary: c)
  case Nil
  then show ?case by simp
next
  case (Cons y crops)
  show ?case
  proof (cases "labels y = {}")
    case True
    then show ?thesis by (simp add: np_max_Inl)
  next
    case False
    with Cons.prems have "x \<in> set crops" by auto
    from Cons.IH [OF this Cons.prems(2)] False show ?thesis
      by (simp add: np_max_Inr)
  qed
qed

lemma plane_DataArray: "plane (DataArray [x] ds) = x"
  by (simp add: plane_def DataArray_def)

lemma offset_positive_length: "length (offset_positive dt c x) = length x"
  by (simp add: offset_positive_def)

lemma offset_positive_row_length:
  "r < length x \<Longrightarrow> length (offset_positive dt c x ! r) = length (x ! r)"
  by (simp add: offset_positive_def)

lemma offset_positive_pixel:
  "r < length x \<Longrightarrow> k < length (x ! r) \<Longrightarrow>
     offset_positive dt c x ! r ! k = (if x ! r ! k > 0 then wrap dt (x ! r ! k + c) else x ! r ! k)"
  by (simp add: offset_positive_def)

lemma reconcile_nth:
  assumes "reconcile dt c crops = Inr (c', out)" and "i < length crops"
  shows "i < length out \<and> labels (crops ! i) \<noteq> {} \<and>
         plane (out ! i) = offset_positive dt (offset_at dt c crops i) (crops ! i)"
  using reconcile_closed_form [OF assms(1)] assms(2) by (simp add: plane_DataArray)

subsection \<open>Background pixels\<close>

text \<open>
  Claim C3. For every element type of the arrays, the reconciliation pass of \<^verbatim>\<open>segment\<close>
  completes whenever every crop has at least one pixel, and whenever it completes, every
  pixel of every crop keeps its position, a pixel whose label was 0 still has label 0, and
  more generally every pixel whose label was not strictly positive keeps its value: only
  strictly positive labels are altered.
\<close>

theorem reconcile_background_unchanged:
  "((\<forall>x \<in> set crops. labels x \<noteq> {}) \<longrightarrow> (\<exists>c' out. reconcile dt 0 crops = Inr (c', out))) \<and>
   (\<forall>c' out i r k.
      reconcile dt 0 crops = Inr (c', out) \<and> i < length crops \<and>
      r < length (crops ! i) \<and> k < length (crops ! i ! r) \<longrightarrow>
        i < length out \<and> r < length (plane (out ! i)) \<and> k < length (plane (out ! i) ! r) \<and>
        (crops ! i ! r ! k = 0 \<longrightarrow> plane (out ! i) ! r ! k = 0) \<and>
        (crops ! i ! r ! k \<le> 0 \<longrightarrow> plane (out ! i) ! r ! k = crops ! i ! r ! k))"
proof (intro conjI allI impI)
  assume "\<forall>x \<in> set crops. labels x \<noteq> {}"
  then show "\<exists>c' out. reconcile dt 0 crops = Inr (c', out)"
    by (rule reconcile_total)
next
  fix c' out i r k
  assume a: "reconcile dt 0 crops = Inr (c', out) \<and> i < length crops \<and>
      r < length (crops ! i) \<and> k < length (crops ! i ! r)"
  then have n: "i < length out" and
    p: "plane (out ! i) = offset_positive dt (offset_at dt 0 crops i) (crops ! i)"
    using reconcile_nth [of dt 0 crops c' out i] by simp_all
  show "i < length out" by (rule n)
  show "r < length (plane (out ! i))" using a p by (simp add: offset_positive_length)
  show "k < length (plane (out ! i) ! r)" using a p by (simp add: offset_positive_row_length)
  show "plane (out ! i) ! r ! k = 0" if "crops ! i ! r ! k = 0"
    using a p that by (simp add: offset_positive_pixel)
  show "plane (out ! i) ! r ! k = crops ! i ! r ! k" if "crops ! i ! r ! k \<le> 0"
    using a p that by (simp add: offset_positive_pixel)
qed

theorem reconcile_background_unchanged_witness:
  "\<exists>c' out. reconcile uint8 0 [[[0, 1], [2, 0]], [[0, 1]]] = Inr (c', out) \<and>
      [[[0, 1], [2, 0]], [[0, 1]]] ! 1 ! 0 ! 0 = (0::int) \<and> plane (out ! 1) ! 0 ! 0 = 0"
proof -
  let ?crops = "[[[0, 1], [2, 0]], [[0, 1]]] :: label_array list"
  note t = reconcile_background_unchanged [of ?crops uint8]
  have "\<forall>x \<in> set ?crops. labels x \<noteq> {}"
    by (simp add: labels_def)
  with t obtain c' out where r: "reconcile uint8 0 ?crops = Inr (c', out)"
    by blast
  with t have "?crops ! 1 ! 0 ! 0 = 0 \<longrightarrow> plane (out ! 1) ! 0 ! 0 = 0"
    by simp
  then have "plane (out ! 1) ! 0 ! 0 = 0" by simp
  with r show ?thesis by simp
qed

subsection \<open>When no sum leaves the range of the element type\<close>

lemma wrap_id: "dtype_min dt \<le> z \<Longrightarrow> z \<le> dtype_max dt \<Longrightarrow> wrap dt z = z"
  by (cases dt) (simp_all add: wrap_def dtype_min_def dtype_max_def)

lemma dtype_min_nonpos: "dtype_min dt \<le> 0"
  by (cases dt) (simp_all add: dtype_min_def)

lemma dtype_max_ge: "127 \<le> dtype_max dt"
  by (cases dt) (simp_all add: dtype_max_def)

lemma labels_finite: "finite (labels x)"
  by (simp add: labels_def)

lemma Max_labels_nonneg:
  "labels x \<noteq> {} \<Longrightarrow> \<forall>v \<in> labels x. 0 \<le> v \<Longrightarrow> 0 \<le> Max (labels x)"
  using labels_finite by (meson Max_in)

lemma pos_labels_le_Max: "v \<in> pos_labels x \<Longrightarrow> v \<le> Max (labels x)"
  by (simp add: pos_labels_def labels_finite)

lemma maxima_before_0: "maxima_before crops 0 = 0"
  by (simp add: maxima_before_def)

lemma maxima_before_Suc:
  "i < length crops \<Longrightarrow> maxima_before crops (Suc i) = maxima_before crops i + Max (labels (crops ! i))"
  by (simp add: maxima_before_def take_Suc_conv_app_nth)

lemma maxima_before_all:
  "length crops \<le> i \<Longrightarrow> maxima_before crops i = sum_list (map (\<lambda>x. Max (labels x)) crops)"
  by (simp add: maxima_before_def)

lemma maxima_before_take:
  "i \<le> n \<Longrightarrow> maxima_before (take n crops) i = maxima_before crops i"
  by (simp add: maxima_before_def min_def)

lemma maxima_before_mono:
  assumes "\<forall>x \<in> set crops. labels x \<noteq> {} \<and> (\<forall>v \<in> labels x. 0 \<le> v)"
  shows "i \<le> j \<Longrightarrow> maxima_before crops i \<le> maxima_before crops j"
proof (induction j)
  case 0
  then show ?case by simp
next
  case (Suc j)
  show ?case
  proof (cases "i = Suc j")
    case True
    then show ?thesis by simp
  next
    case False
    with Suc have le: "maxima_before crops i \<le> maxima_before crops j" by simp
    show ?thesis
    proof (cases "j < length crops")
      case True
      then have "0 \<le> Max (labels (crops ! j))"
        using assms Max_labels_nonneg nth_mem by blast
      then show ?thesis using le maxima_before_Suc [OF True] by simp
    next
      case False
      then show ?thesis using le by (simp add: maxima_before_def)
    qed
  qed
qed

lemma maxima_before_nonneg:
  assumes "\<forall>x \<in> set crops. labels x \<noteq> {} \<and> (\<forall>v \<in> labels x. 0 \<le> v)"
  shows "0 \<le> maxima_before crops i"
  using maxima_before_mono [OF assms, of 0 i] by (simp add: maxima_before_0)

lemma maxima_before_le_total:
  assumes "\<forall>x \<in> set crops. labels x \<noteq> {} \<and> (\<forall>v \<in> labels x. 0 \<le> v)"
  shows "maxima_before crops i \<le> sum_list (map (\<lambda>x. Max (labels x)) crops)"
proof -
  have "maxima_before crops i \<le> maxima_before crops (max i (length crops))"
    by (rule maxima_before_mono [OF assms]) simp
  also have "\<dots> = sum_list (map (\<lambda>x. Max (labels x)) crops)"
    by (rule maxima_before_all) simp
  finally show ?thesis .
qed

lemma offset_at_Suc:
  "i < length crops \<Longrightarrow>
     offset_at dt c crops (Suc i) = wrap dt (offset_at dt c crops i + Max (labels (crops ! i)))"
  by (simp add: offset_at_def take_Suc_conv_app_nth)

text \<open>
  When the crops have nonnegative labels and the sum of their maxima is within the range of
  the element type, the counter is the exact sum of the maxima of the earlier crops.
\<close>

lemma offset_at_exact:
  assumes nn: "\<forall>x \<in> set crops. labels x \<noteq> {} \<and> (\<forall>v \<in> labels x. 0 \<le> v)"
    and fit: "sum_list (map (\<lambda>x. Max (labels x)) crops) \<le> dtype_max dt"
  shows "i \<le> length crops \<Longrightarrow> offset_at dt 0 crops i = maxima_before crops i"
proof (induction i)
  case 0
  show ?case by (simp add: offset_at_def maxima_before_def)
next
  case (Suc i)
  then have i: "i < length crops" by simp
  have "0 \<le> maxima_before crops (Suc i)" by (rule maxima_before_nonneg [OF nn])
  with dtype_min_nonpos [of dt] have lo: "dtype_min dt \<le> maxima_before crops (Suc i)" by simp
  have hi: "maxima_before crops (Suc i) \<le> dtype_max dt"
    using maxima_before_le_total [OF nn, of "Suc i"] fit by simp
  have "offset_at dt 0 crops (Suc i) = wrap dt (maxima_before crops i + Max (labels (crops ! i)))"
    using Suc i by (simp add: offset_at_Suc)
  also have "\<dots> = wrap dt (maxima_before crops (Suc i))"
    by (simp add: maxima_before_Suc [OF i])
  also have "\<dots> = maxima_before crops (Suc i)"
    by (rule wrap_id [OF lo hi])
  finally show ?case .
qed

lemma offset_positive_exact:
  assumes d: "0 \<le> d" and fit: "\<forall>v \<in> labels x. v + d \<le> dtype_max dt"
  shows "offset_positive dt d x = map (map (\<lambda>v. if v > 0 then v + d else v)) x"
proof -
  have "(if v > 0 then wrap dt (v + d) else v) = (if v > 0 then v + d else v)"
    if "row \<in> set x" and "v \<in> set row" for row v
  proof (cases "v > 0")
    case True
    from that have "v \<in> labels x" by (auto simp: labels_def)
    with fit have hi: "v + d \<le> dtype_max dt" by blast
    from True d dtype_min_nonpos [of dt] have lo: "dtype_min dt \<le> v + d" by simp
    from wrap_id [OF lo hi] True show ?thesis by simp
  next
    case False
    then show ?thesis by simp
  qed
  then show ?thesis by (simp add: offset_positive_def)
qed

text \<open>The result of the pass under these conditions.\<close>

lemma reconcile_exact:
  assumes nn: "\<forall>x \<in> set crops. labels x \<noteq> {} \<and> (\<forall>v \<in> labels x. 0 \<le> v)"
    and fit: "sum_list (map (\<lambda>x. Max (labels x)) crops) \<le> dtype_max dt"
    and r: "reconcile dt 0 crops = Inr (c', out)"
  shows "c' = sum_list (map (\<lambda>x. Max (labels x)) crops)"
    and "length out = length crops"
    and "i < length crops \<Longrightarrow>
           plane (out ! i) =
             map (map (\<lambda>v. if v > 0 then v + maxima_before crops i else v)) (crops ! i)"
proof -
  note cf = reconcile_closed_form [OF r]
  from cf have "c' = offset_at dt 0 crops (length crops)" by blast
  then show "c' = sum_list (map (\<lambda>x. Max (labels x)) crops)"
    using offset_at_exact [OF nn fit, of "length crops"] by (simp add: maxima_before_all)
  from cf show "length out = length crops" by blast
  assume i: "i < length crops"
  have o: "offset_at dt 0 crops i = maxima_before crops i"
    using offset_at_exact [OF nn fit, of i] i by simp
  have d: "0 \<le> maxima_before crops i" by (rule maxima_before_nonneg [OF nn])
  have f: "\<forall>v \<in> labels (crops ! i). v + maxima_before crops i \<le> dtype_max dt"
  proof
    fix v assume "v \<in> labels (crops ! i)"
    then have "v \<le> Max (labels (crops ! i))" by (simp add: labels_finite)
    then have "v + maxima_before crops i \<le> maxima_before crops (Suc i)"
      by (simp add: maxima_before_Suc [OF i])
    also have "\<dots> \<le> sum_list (map (\<lambda>x. Max (labels x)) crops)"
      by (rule maxima_before_le_total [OF nn])
    finally show "v + maxima_before crops i \<le> dtype_max dt" using fit by simp
  qed
  from reconcile_nth [OF r i] have "plane (out ! i) = offset_positive dt (offset_at dt 0 crops i) (crops ! i)"
    by blast
  then show "plane (out ! i) =
             map (map (\<lambda>v. if v > 0 then v + maxima_before crops i else v)) (crops ! i)"
    by (simp add: o offset_positive_exact [OF d f])
qed

lemma reconcile_prefix:
  assumes nn: "\<forall>x \<in> set crops. labels x \<noteq> {} \<and> (\<forall>v \<in> labels x. 0 \<le> v)"
    and fit: "sum_list (map (\<lambda>x. Max (labels x)) crops) \<le> dtype_max dt"
    and i: "i \<le> length crops"
  shows "\<exists>out. reconcile dt 0 (take i crops) = Inr (maxima_before crops i, out)"
proof -
  have nn': "\<forall>x \<in> set (take i crops). labels x \<noteq> {} \<and> (\<forall>v \<in> labels x. 0 \<le> v)"
    using nn by (meson in_set_takeD)
  then have "\<forall>x \<in> set (take i crops). labels x \<noteq> {}" by blast
  from reconcile_total [OF this] obtain c' out where
    r: "reconcile dt 0 (take i crops) = Inr (c', out)" by blast
  have "sum_list (map (\<lambda>x. Max (labels x)) (take i crops)) = maxima_before crops i"
    by (simp add: maxima_before_def)
  also have "\<dots> \<le> dtype_max dt"
    using maxima_before_le_total [OF nn, of i] fit by simp
  finally have fit': "sum_list (map (\<lambda>x. Max (labels x)) (take i crops)) \<le> dtype_max dt" .
  from reconcile_exact(1) [OF nn' fit' r] have "c' = maxima_before crops i"
    by (simp add: maxima_before_def)
  with r show ?thesis by blast
qed

lemma labels_map_map: "labels (map (map f) x) = f ` labels x"
  by (auto simp: labels_def)

lemma pos_labels_shift:
  "0 \<le> d \<Longrightarrow> pos_labels (map (map (\<lambda>v. if v > 0 then v + d else v)) x) = (\<lambda>v. v + d) ` pos_labels x"
  by (auto simp: pos_labels_def labels_map_map split: if_splits)



lemma reconciled_pos_labels_bounds:
  assumes nn: "\<forall>x \<in> set crops. labels x \<noteq> {} \<and> (\<forall>v \<in> labels x. 0 \<le> v)"
    and fit: "sum_list (map (\<lambda>x. Max (labels x)) crops) \<le> dtype_max dt"
    and r: "reconcile dt 0 crops = Inr (c', out)"
    and i: "i < length crops"
    and v: "v \<in> pos_labels (plane (out ! i))"
  shows "maxima_before crops i < v \<and> v \<le> maxima_before crops (Suc i)"
proof -
  have d: "0 \<le> maxima_before crops i" by (rule maxima_before_nonneg [OF nn])
  from v have "v \<in> (\<lambda>w. w + maxima_before crops i) ` pos_labels (crops ! i)"
    by (simp add: reconcile_exact(3) [OF nn fit r i] pos_labels_shift [OF d])
  then obtain w where w: "w \<in> pos_labels (crops ! i)" and vw: "v = w + maxima_before crops i"
    by blast
  from w have "0 < w" by (simp add: pos_labels_def)
  moreover from w have "w \<le> Max (labels (crops ! i))" by (rule pos_labels_le_Max)
  ultimately show ?thesis using vw maxima_before_Suc [OF i] by simp
qed

lemma reconciled_pos_labels_disjoint:
  assumes nn: "\<forall>x \<in> set crops. labels x \<noteq> {} \<and> (\<forall>v \<in> labels x. 0 \<le> v)"
    and fit: "sum_list (map (\<lambda>x. Max (labels x)) crops) \<le> dtype_max dt"
    and r: "reconcile dt 0 crops = Inr (c', out)"
    and ij: "i < j" and j: "j < length crops"
  shows "pos_labels (plane (out ! i)) \<inter> pos_labels (plane (out ! j)) = {}"
proof (rule ccontr)
  assume "pos_labels (plane (out ! i)) \<inter> pos_labels (plane (out ! j)) \<noteq> {}"
  then obtain v where vi: "v \<in> pos_labels (plane (out ! i))" and vj: "v \<in> pos_labels (plane (out ! j))"
    by blast
  from ij j have i: "i < length crops" by simp
  have "v \<le> maxima_before crops (Suc i)"
    using reconciled_pos_labels_bounds [OF nn fit r i vi] by simp
  moreover have "maxima_before crops (Suc i) \<le> maxima_before crops j"
    using ij by (intro maxima_before_mono [OF nn]) simp
  moreover have "maxima_before crops j < v"
    using reconciled_pos_labels_bounds [OF nn fit r j vj] by simp
  ultimately show False by simp
qed

subsection \<open>Label structure inside one crop\<close>




subsection \<open>No collision between crops\<close>

text \<open>
  Claim C2, as the code has it. Let the crops have nonnegative labels, dense or not, and at
  least one pixel each, and let the sum of their maxima not exceed the largest value of the
  element type of the arrays. Then the pass completes; the counter reached after \<open>i\<close>
  iterations (the result of running the loop on the first \<open>i\<close> crops) is nonnegative and never
  decreases with \<open>i\<close>; every positive label of reconciled crop \<open>i\<close> lies strictly above the sum
  of the maxima of all earlier crops and at most at that sum plus the crop's own maximum; so
  positive labels of distinct crops never collide.
\<close>

theorem reconcile_no_collision:
  assumes "\<forall>x \<in> set crops. labels x \<noteq> {} \<and> (\<forall>v \<in> labels x. 0 \<le> v)"
    and "sum_list (map (\<lambda>x. Max (labels x)) crops) \<le> dtype_max dt"
  shows "\<exists>c' out. reconcile dt 0 crops = Inr (c', out) \<and> length out = length crops \<and>
     (\<forall>i j. i \<le> j \<and> j \<le> length crops \<longrightarrow>
        (\<exists>ci oi cj oj. reconcile dt 0 (take i crops) = Inr (ci, oi) \<and>
            reconcile dt 0 (take j crops) = Inr (cj, oj) \<and> 0 \<le> ci \<and> ci \<le> cj)) \<and>
     (\<forall>i v. i < length crops \<and> v \<in> pos_labels (plane (out ! i)) \<longrightarrow>
        sum_list (map (\<lambda>x. Max (labels x)) (take i crops)) < v \<and>
        v \<le> sum_list (map (\<lambda>x. Max (labels x)) (take i crops)) + Max (labels (crops ! i))) \<and>
     (\<forall>i j. i < j \<and> j < length crops \<longrightarrow>
        pos_labels (plane (out ! i)) \<inter> pos_labels (plane (out ! j)) = {})"
proof -
  from assms(1) have ne: "\<forall>x \<in> set crops. labels x \<noteq> {}" by blast
  from reconcile_total [OF ne] obtain c' out where r: "reconcile dt 0 crops = Inr (c', out)"
    by blast
  have len: "length out = length crops"
    by (rule reconcile_exact(2) [OF assms r])
  have M: "\<forall>i j. i \<le> j \<and> j \<le> length crops \<longrightarrow>
        (\<exists>ci oi cj oj. reconcile dt 0 (take i crops) = Inr (ci, oi) \<and>
            reconcile dt 0 (take j crops) = Inr (cj, oj) \<and> 0 \<le> ci \<and> ci \<le> cj)"
  proof (intro allI impI)
    fix i j assume h: "i \<le> j \<and> j \<le> length crops"
    then have il: "i \<le> length crops" and jl: "j \<le> length crops" by simp_all
    from reconcile_prefix [OF assms il] obtain oi where
      ri: "reconcile dt 0 (take i crops) = Inr (maxima_before crops i, oi)" by blast
    from reconcile_prefix [OF assms jl] obtain oj where
      rj: "reconcile dt 0 (take j crops) = Inr (maxima_before crops j, oj)" by blast
    have "0 \<le> maxima_before crops i" by (rule maxima_before_nonneg [OF assms(1)])
    moreover have "maxima_before crops i \<le> maxima_before crops j"
      using h by (intro maxima_before_mono [OF assms(1)]) simp
    ultimately show "\<exists>ci oi cj oj. reconcile dt 0 (take i crops) = Inr (ci, oi) \<and>
            reconcile dt 0 (take j crops) = Inr (cj, oj) \<and> 0 \<le> ci \<and> ci \<le> cj"
      using ri rj by blast
  qed
  have B: "\<forall>i v. i < length crops \<and> v \<in> pos_labels (plane (out ! i)) \<longrightarrow>
        sum_list (map (\<lambda>x. Max (labels x)) (take i crops)) < v \<and>
        v \<le> sum_list (map (\<lambda>x. Max (labels x)) (take i crops)) + Max (labels (crops ! i))"
  proof (intro allI impI)
    fix i v assume h: "i < length crops \<and> v \<in> pos_labels (plane (out ! i))"
    then have i: "i < length crops" and v: "v \<in> pos_labels (plane (out ! i))" by simp_all
    from reconciled_pos_labels_bounds [OF assms r i v] maxima_before_Suc [OF i]
    show "sum_list (map (\<lambda>x. Max (labels x)) (take i crops)) < v \<and>
        v \<le> sum_list (map (\<lambda>x. Max (labels x)) (take i crops)) + Max (labels (crops ! i))"
      by (simp add: maxima_before_def)
  qed
  have D: "\<forall>i j. i < j \<and> j < length crops \<longrightarrow>
        pos_labels (plane (out ! i)) \<inter> pos_labels (plane (out ! j)) = {}"
  proof (intro allI impI)
    fix i j assume "i < j \<and> j < length crops"
    then have ij: "i < j" and j: "j < length crops" by simp_all
    show "pos_labels (plane (out ! i)) \<inter> pos_labels (plane (out ! j)) = {}"
      by (rule reconciled_pos_labels_disjoint [OF assms r ij j])
  qed
  show ?thesis
    by (intro exI conjI) (rule r, rule len, rule M, rule B, rule D)
qed

text \<open>
  The instance of the specification: a first crop with the gap labels \<open>{1, 3}\<close> pushes the
  offset of the second crop to 3, one more than needed, and the positive labels of the two
  reconciled crops are disjoint.
\<close>

theorem reconcile_no_collision_witness:
  "\<exists>c' out. reconcile int32 0 [[[1, 3]], [[1, 0]]] = Inr (c', out) \<and>
     pos_labels (plane (out ! 0)) \<inter> pos_labels (plane (out ! 1)) = {}"
proof -
  let ?crops = "[[[1, 3]], [[1, 0]]] :: label_array list"
  have h: "\<forall>x \<in> set ?crops. labels x \<noteq> {} \<and> (\<forall>v \<in> labels x. 0 \<le> v)"
    by (simp add: labels_def)
  have f: "sum_list (map (\<lambda>x. Max (labels x)) ?crops) \<le> dtype_max int32"
    by (simp add: labels_def dtype_max_def)
  from reconcile_no_collision [OF h f] obtain c' out where
    r: "reconcile int32 0 ?crops = Inr (c', out)" and
    d: "\<forall>i j. i < j \<and> j < length ?crops \<longrightarrow>
        pos_labels (plane (out ! i)) \<inter> pos_labels (plane (out ! j)) = {}"
    by (elim exE conjE) (rule that)
  from d [rule_format, of 0 1] have "pos_labels (plane (out ! 0)) \<inter> pos_labels (plane (out ! 1)) = {}"
    by simp
  with r show ?thesis by blast
qed

text \<open>
  The claim without these conditions fails. In 8-bit unsigned arrays, after a first crop with
  the labels 200 and 44 the label 100 of the second crop is stored as
  \<open>(100 + 200) mod 256 = 44\<close>, a label of the first crop, and the counter goes from 200 to 44.
  And a crop with no pixel makes \<^verbatim>\<open>np.max\<close> raise, so the pass does not complete.
\<close>

theorem reconcile_collision_counterexample:
  "reconcile uint8 0 [[[200, 44]]] = Inr (200, [DataArray [[[200, 44]]] [''mask'', ''y'', ''x'']]) \<and>
   reconcile uint8 0 [[[200, 44]], [[100]]] =
     Inr (44, [DataArray [[[200, 44]]] [''mask'', ''y'', ''x''],
               DataArray [[[44]]] [''mask'', ''y'', ''x'']]) \<and>
   reconcile uint8 0 [[[200, 44]], [[]]] =
     Inl (ValueError ''zero-size array to reduction operation maximum which has no identity'')"
  by (simp add: np_max_def offset_positive_def wrap_def)

subsection \<open>Dense local labels\<close>

lemma dense_Max:
  assumes ne: "labels x \<noteq> {}" and n: "0 \<le> n" and d: "labels x - {0} = {1..n}"
  shows "Max (labels x) = n"
proof (cases "n = 0")
  case True
  with d have "labels x \<subseteq> {0}" by auto
  with ne have "labels x = {0}" by blast
  with True show ?thesis by simp
next
  case False
  with n have "n \<in> {1..n}" by simp
  with d have nin: "n \<in> labels x" by blast
  have "v \<le> n" if "v \<in> labels x" for v
  proof (cases "v = 0")
    case True
    with n show ?thesis by simp
  next
    case False
    with that d have "v \<in> {1..n}" by blast
    then show ?thesis by simp
  qed
  with nin show ?thesis
    by (intro Max_eqI) (simp_all add: labels_finite)
qed

lemma dense_pos_labels:
  assumes d: "labels x - {0} = {1..n}"
  shows "pos_labels x = {1..n}"
proof -
  have "pos_labels x = {v \<in> labels x - {0}. 0 < v}"
    by (auto simp: pos_labels_def)
  also have "\<dots> = {1..n}" unfolding d by auto
  finally show ?thesis .
qed

lemma dense_nonneg:
  assumes d: "labels x - {0} = {1..n}"
  shows "\<forall>v \<in> labels x. 0 \<le> v"
proof
  fix v assume "v \<in> labels x"
  show "0 \<le> v"
  proof (cases "v = 0")
    case True then show ?thesis by simp
  next
    case False
    with \<open>v \<in> labels x\<close> d have "v \<in> {1..n}" by blast
    then show ?thesis by simp
  qed
qed

lemma dense_maxima:
  assumes len: "length ns = length crops"
    and d: "\<forall>i < length crops. labels (crops ! i) \<noteq> {} \<and> 0 \<le> ns ! i \<and>
              labels (crops ! i) - {0} = {1..ns ! i}"
  shows "map (\<lambda>x. Max (labels x)) crops = ns"
proof (rule nth_equalityI)
  show "length (map (\<lambda>x. Max (labels x)) crops) = length ns" using len by simp
  fix i assume "i < length (map (\<lambda>x. Max (labels x)) crops)"
  then have i: "i < length crops" by simp
  with d have "Max (labels (crops ! i)) = ns ! i" using dense_Max by blast
  with i show "map (\<lambda>x. Max (labels x)) crops ! i = ns ! i" by simp
qed

lemma shifted_interval: "(\<lambda>v. v + d) ` {1..n} = {d + 1..d + (n::int)}"
proof -
  have "(\<lambda>v. v + d) ` {1..n} = (\<lambda>v. d + v) ` {1..n}"
    by (simp add: add.commute)
  then show ?thesis by simp
qed

lemma union_intervals:
  assumes "\<forall>i < length ns. 0 \<le> ns ! i"
  shows "k \<le> length ns \<Longrightarrow>
     (\<Union>i < k. {sum_list (take i ns) + 1..sum_list (take i ns) + ns ! i}) = {1..sum_list (take k (ns::int list))}"
proof (induction k)
  case 0
  show ?case by simp
next
  case (Suc k)
  then have k: "k < length ns" by simp
  with assms have nk: "0 \<le> ns ! k" by blast
  have s0: "0 \<le> sum_list (take k ns)"
  proof (rule sum_list_nonneg)
    fix x assume "x \<in> set (take k ns)"
    then obtain j where "j < length (take k ns)" and "x = take k ns ! j"
      by (auto simp: in_set_conv_nth)
    with assms show "0 \<le> x" by simp
  qed
  have "(\<Union>i < Suc k. {sum_list (take i ns) + 1..sum_list (take i ns) + ns ! i}) =
        {1..sum_list (take k ns)} \<union> {sum_list (take k ns) + 1..sum_list (take k ns) + ns ! k}"
    using Suc by (simp add: lessThan_Suc Un_commute)
  also have "\<dots> = {1..sum_list (take k ns) + ns ! k}"
    using s0 nk by auto
  also have "\<dots> = {1..sum_list (take (Suc k) ns)}"
    using k by (simp add: take_Suc_conv_app_nth)
  finally show ?case .
qed

lemma reconcile_dense:
  assumes len: "length ns = length crops"
    and d: "\<forall>i < length crops. labels (crops ! i) \<noteq> {} \<and> 0 \<le> ns ! i \<and>
              labels (crops ! i) - {0} = {1..ns ! i}"
    and fit: "sum_list ns \<le> dtype_max dt"
  shows "\<exists>c' out. reconcile dt 0 crops = Inr (c', out) \<and> length out = length crops \<and>
           c' = sum_list ns \<and>
           (\<forall>i j. i < j \<and> j < length crops \<longrightarrow>
              pos_labels (plane (out ! i)) \<inter> pos_labels (plane (out ! j)) = {}) \<and>
           (\<Union>i < length crops. pos_labels (plane (out ! i))) = {1..sum_list ns}"
proof -
  have nn: "\<forall>x \<in> set crops. labels x \<noteq> {} \<and> (\<forall>v \<in> labels x. 0 \<le> v)"
  proof
    fix x assume "x \<in> set crops"
    then obtain i where i: "i < length crops" and x: "x = crops ! i"
      by (auto simp: in_set_conv_nth)
    with d have "labels x \<noteq> {}" and "labels x - {0} = {1..ns ! i}" by simp_all
    then show "labels x \<noteq> {} \<and> (\<forall>v \<in> labels x. 0 \<le> v)"
      using dense_nonneg by blast
  qed
  then have ne: "\<forall>x \<in> set crops. labels x \<noteq> {}" by blast
  note mx = dense_maxima [OF len d]
  have fit': "sum_list (map (\<lambda>x. Max (labels x)) crops) \<le> dtype_max dt"
    using fit by (simp add: mx)
  have mb: "maxima_before crops i = sum_list (take i ns)" for i
    by (simp add: maxima_before_def take_map [symmetric] mx)
  from reconcile_total [OF ne] obtain c' out where r: "reconcile dt 0 crops = Inr (c', out)"
    by blast
  have lo: "length out = length crops"
    by (rule reconcile_exact(2) [OF nn fit' r])
  have c: "c' = sum_list ns"
    using reconcile_exact(1) [OF nn fit' r] by (simp add: mx)
  have D: "\<forall>i j. i < j \<and> j < length crops \<longrightarrow>
        pos_labels (plane (out ! i)) \<inter> pos_labels (plane (out ! j)) = {}"
  proof (intro allI impI)
    fix i j assume "i < j \<and> j < length crops"
    then have ij: "i < j" and j: "j < length crops" by simp_all
    show "pos_labels (plane (out ! i)) \<inter> pos_labels (plane (out ! j)) = {}"
      by (rule reconciled_pos_labels_disjoint [OF nn fit' r ij j])
  qed
  have P: "pos_labels (plane (out ! i)) =
             {sum_list (take i ns) + 1..sum_list (take i ns) + ns ! i}"
    if i: "i < length crops" for i
  proof -
    have g: "0 \<le> maxima_before crops i" by (rule maxima_before_nonneg [OF nn])
    have "pos_labels (plane (out ! i)) = (\<lambda>v. v + maxima_before crops i) ` pos_labels (crops ! i)"
      by (simp add: reconcile_exact(3) [OF nn fit' r i] pos_labels_shift [OF g])
    also have "pos_labels (crops ! i) = {1..ns ! i}"
      using d i dense_pos_labels by blast
    finally show ?thesis by (simp add: shifted_interval mb)
  qed
  have nsn: "\<forall>i < length ns. 0 \<le> ns ! i" using d len by simp
  have "(\<Union>i < length crops. pos_labels (plane (out ! i))) =
        (\<Union>i < length crops. {sum_list (take i ns) + 1..sum_list (take i ns) + ns ! i})"
    using P by simp
  also have "\<dots> = {1..sum_list (take (length crops) ns)}"
    using union_intervals [OF nsn, of "length crops"] len by simp
  finally have U: "(\<Union>i < length crops. pos_labels (plane (out ! i))) = {1..sum_list ns}"
    using len by simp
  show ?thesis
    by (intro exI conjI) (rule r, rule lo, rule c, rule D, rule U)
qed

lemma reconcile_two_crops:
  assumes A: "labels A = {0, 1, 2}" and B: "labels B = {0, 1}"
  shows "\<exists>c' A' B'. reconcile dt 0 [A, B] = Inr (c', [A', B']) \<and> plane A' = A \<and>
           labels (plane A') = {0, 1, 2} \<and> labels (plane B') = {0, 3}"
proof -
  have mA: "np_max A = Inr 2" using np_max_Inr [of A] A by simp
  have mB: "np_max B = Inr 1" using np_max_Inr [of B] B by simp
  have w2: "wrap dt 2 = 2"
    using dtype_min_nonpos [of dt] dtype_max_ge [of dt] by (intro wrap_id) simp_all
  have w3: "wrap dt 3 = 3"
    using dtype_min_nonpos [of dt] dtype_max_ge [of dt] by (intro wrap_id) simp_all
  have r: "reconcile dt 0 [A, B] =
      Inr (3, [DataArray [offset_positive dt 0 A] [''mask'', ''y'', ''x''],
               DataArray [offset_positive dt 2 B] [''mask'', ''y'', ''x'']])"
    by (simp add: mA mB w2 w3)
  have fA: "\<forall>v \<in> labels A. v + 0 \<le> dtype_max dt"
    using dtype_max_ge [of dt] by (simp add: A)
  have fB: "\<forall>v \<in> labels B. v + 2 \<le> dtype_max dt"
    using dtype_max_ge [of dt] by (simp add: B)
  have oA: "offset_positive dt 0 A = A"
    using offset_positive_exact [OF _ fA] by (simp add: map_idI)
  have "offset_positive dt 2 B = map (map (\<lambda>v. if v > 0 then v + 2 else v)) B"
    by (rule offset_positive_exact [OF _ fB]) simp
  then have oB: "labels (offset_positive dt 2 B) = {0, 3}"
    by (simp add: labels_map_map B)
  from r A oA oB show ?thesis
    by (simp add: plane_DataArray)
qed

text \<open>
  Claim C1, as the code has it. Let every crop have at least one pixel and use the dense
  labels \<open>1..n\<^sub>i\<close> beside the background 0, and let \<open>\<Sum> n\<^sub>i\<close> not exceed the largest value of the
  element type of the arrays. Then the pass completes, the sets of positive labels of the
  reconciled crops are pairwise disjoint, their union is exactly \<open>{1..\<Sum> n\<^sub>i}\<close>, and the final
  counter is \<open>\<Sum> n\<^sub>i\<close>. In particular, in every element type, for a crop \<open>A\<close> with labels
  \<open>{0, 1, 2}\<close> followed by a crop \<open>B\<close> with labels \<open>{0, 1}\<close>, crop \<open>A\<close> is unchanged and the labels
  of crop \<open>B\<close> become \<open>{0, 3}\<close>.
\<close>

theorem reconcile_dense_labels:
  "(\<forall>crops ns. length ns = length crops \<and>
       (\<forall>i < length crops. labels (crops ! i) \<noteq> {} \<and> 0 \<le> ns ! i \<and>
           labels (crops ! i) - {0} = {1..ns ! i}) \<and>
       sum_list ns \<le> dtype_max dt \<longrightarrow>
       (\<exists>c' out. reconcile dt 0 crops = Inr (c', out) \<and> length out = length crops \<and>
           c' = sum_list ns \<and>
           (\<forall>i j. i < j \<and> j < length crops \<longrightarrow>
              pos_labels (plane (out ! i)) \<inter> pos_labels (plane (out ! j)) = {}) \<and>
           (\<Union>i < length crops. pos_labels (plane (out ! i))) = {1..sum_list ns})) \<and>
   (\<forall>A B. labels A = {0, 1, 2} \<and> labels B = {0, 1} \<longrightarrow>
       (\<exists>c' A' B'. reconcile dt 0 [A, B] = Inr (c', [A', B']) \<and> plane A' = A \<and>
           labels (plane A') = {0, 1, 2} \<and> labels (plane B') = {0, 3}))"
proof (intro conjI allI impI)
  fix crops :: "label_array list" and ns :: "int list"
  assume h: "length ns = length crops \<and>
       (\<forall>i < length crops. labels (crops ! i) \<noteq> {} \<and> 0 \<le> ns ! i \<and>
           labels (crops ! i) - {0} = {1..ns ! i}) \<and>
       sum_list ns \<le> dtype_max dt"
  then have len: "length ns = length crops" and
    d: "\<forall>i < length crops. labels (crops ! i) \<noteq> {} \<and> 0 \<le> ns ! i \<and>
           labels (crops ! i) - {0} = {1..ns ! i}" and
    fit: "sum_list ns \<le> dtype_max dt"
    by simp_all
  show "\<exists>c' out. reconcile dt 0 crops = Inr (c', out) \<and> length out = length crops \<and>
           c' = sum_list ns \<and>
           (\<forall>i j. i < j \<and> j < length crops \<longrightarrow>
              pos_labels (plane (out ! i)) \<inter> pos_labels (plane (out ! j)) = {}) \<and>
           (\<Union>i < length crops. pos_labels (plane (out ! i))) = {1..sum_list ns}"
    by (rule reconcile_dense [OF len d fit])
next
  fix A B :: label_array
  assume "labels A = {0, 1, 2} \<and> labels B = {0, 1}"
  then have A: "labels A = {0, 1, 2}" and B: "labels B = {0, 1}" by simp_all
  show "\<exists>c' A' B'. reconcile dt 0 [A, B] = Inr (c', [A', B']) \<and> plane A' = A \<and>
           labels (plane A') = {0, 1, 2} \<and> labels (plane B') = {0, 3}"
    by (rule reconcile_two_crops [OF A B])
qed

theorem reconcile_dense_labels_witness:
  "\<exists>c' out. reconcile int32 0 [[[0, 1], [2, 0]], [[0, 1]]] = Inr (c', out) \<and> c' = 3 \<and>
      pos_labels (plane (out ! 0)) \<union> pos_labels (plane (out ! 1)) = {1..3} \<and>
      pos_labels (plane (out ! 0)) \<inter> pos_labels (plane (out ! 1)) = {}"
proof -
  let ?crops = "[[[0, 1], [2, 0]], [[0, 1]]] :: label_array list"
  let ?ns = "[2, 1] :: int list"
  have l0: "labels (?crops ! 0) = {0, 1, 2}" by (auto simp: labels_def)
  have l1: "labels (?crops ! 1) = {0, 1}" by (auto simp: labels_def)
  have h: "length ?ns = length ?crops \<and>
       (\<forall>i < length ?crops. labels (?crops ! i) \<noteq> {} \<and> 0 \<le> ?ns ! i \<and>
           labels (?crops ! i) - {0} = {1..?ns ! i}) \<and>
       sum_list ?ns \<le> dtype_max int32"
  proof (intro conjI)
    show "length ?ns = length ?crops" by simp
    show "\<forall>i < length ?crops. labels (?crops ! i) \<noteq> {} \<and> 0 \<le> ?ns ! i \<and>
           labels (?crops ! i) - {0} = {1..?ns ! i}"
    proof (intro allI impI)
      fix i assume "i < length ?crops"
      then have "i = 0 \<or> i = 1" by auto
      then show "labels (?crops ! i) \<noteq> {} \<and> 0 \<le> ?ns ! i \<and>
           labels (?crops ! i) - {0} = {1..?ns ! i}"
      proof
        assume "i = 0"
        then show ?thesis using l0 by auto
      next
        assume "i = 1"
        then show ?thesis using l1 by auto
      qed
    qed
    show "sum_list ?ns \<le> dtype_max int32" by (simp add: dtype_max_def)
  qed
  from reconcile_dense_labels [THEN conjunct1, rule_format, OF h] obtain c' out where
    r: "reconcile int32 0 ?crops = Inr (c', out)" and c: "c' = sum_list ?ns" and
    d: "\<forall>i j. i < j \<and> j < length ?crops \<longrightarrow>
              pos_labels (plane (out ! i)) \<inter> pos_labels (plane (out ! j)) = {}" and
    u: "(\<Union>i < length ?crops. pos_labels (plane (out ! i))) = {1..sum_list ?ns}"
    by (elim exE conjE) (rule that)
  from d [rule_format, of 0 1] have d': "pos_labels (plane (out ! 0)) \<inter> pos_labels (plane (out ! 1)) = {}"
    by simp
  from c have c3: "c' = 3" by simp
  from u have u': "pos_labels (plane (out ! 0)) \<union> pos_labels (plane (out ! 1)) = {1..3}"
    by (simp add: lessThan_Suc Un_commute)
  show ?thesis
    by (intro exI conjI) (rule r, rule c3, rule u', rule d')
qed

text \<open>
  The claim without these conditions fails. In 8-bit unsigned arrays, a first crop with the
  dense labels 1 to 255 and a second crop with the dense labels 1 and 2 have the sum 257 of
  their maxima: the labels of the second crop are stored as \<open>(1 + 255) mod 256 = 0\<close>, the
  background, and \<open>(2 + 255) mod 256 = 1\<close>, a label of the first crop. And a crop with no pixel
  makes \<^verbatim>\<open>np.max\<close> raise, so the pass does not complete.
\<close>

theorem reconcile_dense_wrap_counterexample:
  "reconcile uint8 0 [[map int [1..<256]], [[1, 2]]] =
     Inr (1, [DataArray [[map int [1..<256]]] [''mask'', ''y'', ''x''],
              DataArray [[[0, 1]]] [''mask'', ''y'', ''x'']]) \<and>
   reconcile uint8 0 [[[0, 1]], [[]]] =
     Inl (ValueError ''zero-size array to reduction operation maximum which has no identity'')"
proof
  let ?x = "[map int [1..<256]] :: label_array"
  have l: "labels ?x = int ` {1..<256}" by (simp add: labels_def)
  have ne: "labels ?x \<noteq> {}" unfolding l by simp
  have "Max (labels ?x) = 255"
    unfolding l by (intro Max_eqI) auto
  with np_max_Inr [OF ne] have m: "np_max ?x = Inr 255" by simp
  have f: "\<forall>v \<in> labels ?x. v + 0 \<le> dtype_max uint8"
    unfolding l by (auto simp: dtype_max_def)
  have o: "offset_positive uint8 0 ?x = ?x"
    using offset_positive_exact [OF _ f] by (simp add: map_idI)
  have m2: "np_max [[1, 2]] = Inr 2" by (simp add: np_max_def)
  have w: "wrap uint8 255 = 255" "wrap uint8 257 = 1" by (simp_all add: wrap_def)
  have o2: "offset_positive uint8 255 [[1, 2]] = [[0, 1]]"
    by (simp add: offset_positive_def wrap_def)
  show "reconcile uint8 0 [?x, [[1, 2]]] =
     Inr (1, [DataArray [?x] [''mask'', ''y'', ''x''],
              DataArray [[[0, 1]]] [''mask'', ''y'', ''x'']])"
  proof -
    have a: "(0::int) + 255 = 255" "(255::int) + 2 = 257" by simp_all
    show ?thesis
      by (simp only: reconcile.simps m m2 sum.case prod.case Let_def o o2 w a)
  qed
  show "reconcile uint8 0 [[[0, 1]], [[]]] =
     Inl (ValueError ''zero-size array to reduction operation maximum which has no identity'')"
    by (simp add: np_max_def offset_positive_def wrap_def)
qed

section \<open>Properties of \<^verbatim>\<open>segment_crops\<close>\<close>

lemma in_row_hits:
  "c < length row \<Longrightarrow> row ! c = i \<Longrightarrow> (p, r, c) \<in> set (row_hits i p r row)"
proof -
  assume c: "c < length row" and v: "row ! c = i"
  have "(c, i) \<in> set (enumerate 0 row)"
    using c v by (simp add: in_set_enumerate_eq)
  then have "(c, i) \<in> set (filter (\<lambda>(c, v). v = i) (enumerate 0 row))" by simp
  then have "(\<lambda>(c, v). (p, r, c)) (c, i) \<in> set (row_hits i p r row)"
    unfolding row_hits_def set_map by (rule imageI)
  then show ?thesis by simp
qed

lemma in_plane_hits:
  "r < length pl \<Longrightarrow> c < length (pl ! r) \<Longrightarrow> pl ! r ! c = i \<Longrightarrow> (p, r, c) \<in> set (plane_hits i p pl)"
proof -
  assume r: "r < length pl" and c: "c < length (pl ! r)" and v: "pl ! r ! c = i"
  have e: "(r, pl ! r) \<in> set (enumerate 0 pl)"
    using r by (simp add: in_set_enumerate_eq)
  have "(p, r, c) \<in> set (row_hits i p r (pl ! r))" using c v by (rule in_row_hits)
  with e show ?thesis by (force simp: plane_hits_def)
qed

lemma in_np_where_eq:
  "p < length a \<Longrightarrow> r < length (a ! p) \<Longrightarrow> c < length (a ! p ! r) \<Longrightarrow> a ! p ! r ! c = i \<Longrightarrow>
     (p, r, c) \<in> set (np_where_eq a i)"
proof -
  assume p: "p < length a" and r: "r < length (a ! p)" and c: "c < length (a ! p ! r)"
    and v: "a ! p ! r ! c = i"
  have e: "(p, a ! p) \<in> set (enumerate 0 a)"
    using p by (simp add: in_set_enumerate_eq)
  have "(p, r, c) \<in> set (plane_hits i p (a ! p))" using r c v by (rule in_plane_hits)
  with e show ?thesis by (force simp: np_where_eq_def)
qed

lemma layer_labels_where: "i \<in> layer_labels seg \<Longrightarrow> np_where_eq seg i \<noteq> []"
proof -
  assume "i \<in> layer_labels seg"
  then obtain pl row where pl: "pl \<in> set seg" and row: "row \<in> set pl" and i: "i \<in> set row"
    by (auto simp: layer_labels_def)
  from pl obtain p where p: "p < length seg" and sp: "seg ! p = pl"
    by (auto simp: in_set_conv_nth)
  from row obtain r where r: "r < length pl" and sr: "pl ! r = row"
    by (auto simp: in_set_conv_nth)
  from i obtain c where c: "c < length row" and rc: "row ! c = i"
    by (auto simp: in_set_conv_nth)
  have "(p, r, c) \<in> set (np_where_eq seg i)"
    using p r c rc sp sr by (intro in_np_where_eq) simp_all
  then show ?thesis by auto
qed

lemma set_np_unique: "set (np_unique seg) = layer_labels seg"
  by (simp add: np_unique_def layer_labels_def)

lemma set_segment_ids: "set (segment_ids seg) = layer_labels seg - {0}"
  by (auto simp: segment_ids_def set_np_unique)

lemma sorted_segment_ids: "sorted (segment_ids seg)"
  by (simp add: segment_ids_def)

lemma distinct_segment_ids: "distinct (segment_ids seg)"
  by (simp add: segment_ids_def np_unique_def distinct_removeAll)

lemma segment_ids_sorted_list: "segment_ids seg = sorted_list_of_set (layer_labels seg - {0})"
proof -
  have "sorted_list_of_set (set (segment_ids seg)) = segment_ids seg"
    using sorted_segment_ids distinct_segment_ids by (simp add: sorted_list_of_set.idem_if_sorted_distinct)
  then show ?thesis by (simp add: set_segment_ids)
qed

lemma length_segment_ids: "length (segment_ids seg) = card (layer_labels seg - {0})"
  using distinct_card [OF distinct_segment_ids, of seg] by (simp add: set_segment_ids)

lemma segment_ids_ascending:
  "j < k \<Longrightarrow> k < length (segment_ids seg) \<Longrightarrow> segment_ids seg ! j < segment_ids seg ! k"
proof -
  have "sorted_wrt (<) (segment_ids seg)"
    using sorted_segment_ids distinct_segment_ids by (simp add: strict_sorted_iff)
  then show "j < k \<Longrightarrow> k < length (segment_ids seg) \<Longrightarrow> segment_ids seg ! j < segment_ids seg ! k"
    by (simp add: sorted_wrt_iff_nth_less)
qed

text \<open>The two conversions \<^verbatim>\<open>int(xi)\<close>, \<^verbatim>\<open>int(yi)\<close> succeed for a label that occurs in the layer.\<close>

lemma py_int_centre:
  assumes "i \<in> layer_labels seg"
  shows "\<exists>x. py_int (fst (segment_centre seg i)) = Inr x"
    and "\<exists>y. py_int (snd (segment_centre seg i)) = Inr y"
proof -
  from assms have ne: "np_where_eq seg i \<noteq> []" by (rule layer_labels_where)
  show "\<exists>x. py_int (fst (segment_centre seg i)) = Inr x"
    using ne by (simp add: segment_centre_def np_mean_def py_int_def where_0_def)
  show "\<exists>y. py_int (snd (segment_centre seg i)) = Inr y"
    using ne by (simp add: segment_centre_def np_mean_def py_int_def where_1_def)
qed

lemma crops_at_Inr:
  "crops_at ops img img_id xs ys cs = Inr crops \<Longrightarrow>
     length crops = length cs \<and>
     (\<forall>k < length cs. \<exists>x y. py_int (fst (cs ! k)) = Inr x \<and> py_int (snd (cs ! k)) = Inr y \<and>
          crop_center ops img x y xs ys img_id = Inr (crops ! k))"
proof (induction cs arbitrary: crops)
  case Nil
  then show ?case by simp
next
  case (Cons xy cs)
  obtain xi yi where xy: "xy = (xi, yi)" by (cases xy)
  from Cons.prems obtain x y c rest where
    x: "py_int xi = Inr x" and y: "py_int yi = Inr y" and
    c: "crop_center ops img x y xs ys img_id = Inr c" and
    r: "crops_at ops img img_id xs ys cs = Inr rest" and
    cr: "crops = c # rest"
    by (auto simp: xy split: sum.splits)
  note ih = Cons.IH [OF r]
  have "\<exists>x y. py_int (fst ((xy # cs) ! k)) = Inr x \<and> py_int (snd ((xy # cs) ! k)) = Inr y \<and>
          crop_center ops img x y xs ys img_id = Inr (crops ! k)" if "k < length (xy # cs)" for k
  proof (cases k)
    case 0
    then show ?thesis using x y c cr xy by simp
  next
    case (Suc j)
    with that have "j < length cs" by simp
    with ih show ?thesis using Suc cr by simp
  qed
  then show ?case using ih cr by simp
qed

lemma crops_at_total:
  assumes "\<forall>x y. \<exists>c. crop_center ops img x y xs ys img_id = Inr c"
    and "\<forall>xy \<in> set cs. (\<exists>x. py_int (fst xy) = Inr x) \<and> (\<exists>y. py_int (snd xy) = Inr y)"
  shows "\<exists>crops. crops_at ops img img_id xs ys cs = Inr crops"
  using assms(2)
proof (induction cs)
  case Nil
  show ?case by simp
next
  case (Cons xy cs)
  obtain xi yi where xy: "xy = (xi, yi)" by (cases xy)
  from Cons.prems obtain x y where x: "py_int xi = Inr x" and y: "py_int yi = Inr y"
    by (auto simp: xy)
  from assms(1) obtain c where c: "crop_center ops img x y xs ys img_id = Inr c" by blast
  from Cons obtain rest where "crops_at ops img img_id xs ys cs = Inr rest" by auto
  then show ?case by (simp add: xy x y c)
qed

lemma segment_crops_length:
  assumes dg: "data_get ops img segmented_img_id = Inr seg"
    and r: "segment_crops ops img img_id segmented_img_id xs ys = Inr crops"
  shows "length crops = length (segment_ids seg)"
proof -
  from dg r have c: "crops_at ops img img_id xs ys (segment_centres seg) = Inr crops"
    by (simp add: segment_crops_def)
  from crops_at_Inr [OF c] show ?thesis by (simp add: segment_centres_def)
qed

lemma segment_crops_total:
  assumes dg: "data_get ops img segmented_img_id = Inr seg"
    and t: "\<forall>x y. \<exists>c. crop_center ops img x y xs ys img_id = Inr c"
  shows "\<exists>crops. segment_crops ops img img_id segmented_img_id xs ys = Inr crops"
proof -
  have "\<forall>xy \<in> set (segment_centres seg).
          (\<exists>x. py_int (fst xy) = Inr x) \<and> (\<exists>y. py_int (snd xy) = Inr y)"
  proof
    fix xy assume "xy \<in> set (segment_centres seg)"
    then obtain i where i: "i \<in> set (segment_ids seg)" and xy: "xy = segment_centre seg i"
      by (auto simp: segment_centres_def)
    from i have "i \<in> layer_labels seg" by (simp add: set_segment_ids)
    from py_int_centre [OF this] show "(\<exists>x. py_int (fst xy) = Inr x) \<and> (\<exists>y. py_int (snd xy) = Inr y)"
      by (simp add: xy)
  qed
  from crops_at_total [OF t this] show ?thesis
    using dg by (simp add: segment_crops_def)
qed

subsection \<open>The centre of a segment\<close>

text \<open>
  Claim C5 does not hold of the code on the layers that \<^verbatim>\<open>segment\<close> stores. The layer has the
  mask axis first, so component \<^verbatim>\<open>[0]\<close> of \<^verbatim>\<open>np.where\<close> is the mask index, which is 0 for every
  pixel, and component \<^verbatim>\<open>[1]\<close> is the row index; the column index, component \<^verbatim>\<open>[2]\<close>, is not
  used. For the layer of one plane of 6 rows and 11 columns in which the label 1 occupies the
  single pixel in row 5, column 10, the centre that \<^verbatim>\<open>segment_crops\<close> asks \<^verbatim>\<open>crop_center\<close> for is
  \<open>(x, y) = (0, 5)\<close>, not \<open>(5, 10)\<close>.
\<close>

theorem segment_crops_single_pixel_centre:
  "segment_crops
     (echo_ops
        [[[0, 0, 0, 0, 0, 0, 0, 0, 0, 0, 0], [0, 0, 0, 0, 0, 0, 0, 0, 0, 0, 0],
          [0, 0, 0, 0, 0, 0, 0, 0, 0, 0, 0], [0, 0, 0, 0, 0, 0, 0, 0, 0, 0, 0],
          [0, 0, 0, 0, 0, 0, 0, 0, 0, 0, 0], [0, 0, 0, 0, 0, 0, 0, 0, 0, 0, 1]]])
     () ''image'' ''segmented'' None None = Inr [(0, 5)]"
  by (simp add: segment_crops_def echo_ops_def segment_centres_def segment_ids_def np_unique_def
      segment_centre_def np_where_eq_def plane_hits_def row_hits_def where_0_def where_1_def
      np_mean_def py_int_def)

subsection \<open>One crop for each label, in ascending order\<close>

text \<open>
  Claim C6. For every stored label array, \<^verbatim>\<open>segment_crops\<close> returns a result whenever
  \<^verbatim>\<open>crop_center\<close> answers every request, and whenever it returns, the number of crops is the
  number of distinct nonzero label values (none for an array with no nonzero label), the
  labels it runs over are the nonzero label values in strictly ascending order, and the crop
  at position \<open>k\<close> is the answer of \<^verbatim>\<open>crop_center\<close> for the centre of the label at position \<open>k\<close>.
\<close>

theorem segment_crops_one_per_label:
  assumes "data_get ops img segmented_img_id = Inr seg"
  shows "((\<forall>x y. \<exists>c. crop_center ops img x y xs ys img_id = Inr c) \<longrightarrow>
            (\<exists>crops. segment_crops ops img img_id segmented_img_id xs ys = Inr crops)) \<and>
         (\<forall>crops. segment_crops ops img img_id segmented_img_id xs ys = Inr crops \<longrightarrow>
            length crops = card (layer_labels seg - {0}) \<and>
            (layer_labels seg \<subseteq> {0} \<longrightarrow> crops = []) \<and>
            segment_ids seg = sorted_list_of_set (layer_labels seg - {0}) \<and>
            (\<forall>j k. j < k \<and> k < length crops \<longrightarrow> segment_ids seg ! j < segment_ids seg ! k) \<and>
            (\<forall>k < length crops. \<exists>x y.
                py_int (fst (segment_centre seg (segment_ids seg ! k))) = Inr x \<and>
                py_int (snd (segment_centre seg (segment_ids seg ! k))) = Inr y \<and>
                crop_center ops img x y xs ys img_id = Inr (crops ! k)))"
proof (intro conjI allI impI)
  assume "\<forall>x y. \<exists>c. crop_center ops img x y xs ys img_id = Inr c"
  with assms show "\<exists>crops. segment_crops ops img img_id segmented_img_id xs ys = Inr crops"
    by (rule segment_crops_total)
next
  fix crops
  assume r: "segment_crops ops img img_id segmented_img_id xs ys = Inr crops"
  note len = segment_crops_length [OF assms r]
  show n: "length crops = card (layer_labels seg - {0})"
    using len by (simp add: length_segment_ids)
  show "crops = []" if "layer_labels seg \<subseteq> {0}"
  proof -
    from that have "layer_labels seg - {0} = {}" by blast
    with n show ?thesis by simp
  qed
  show "segment_ids seg = sorted_list_of_set (layer_labels seg - {0})"
    by (rule segment_ids_sorted_list)
  show "segment_ids seg ! j < segment_ids seg ! k" if "j < k \<and> k < length crops" for j k
    using that len by (intro segment_ids_ascending) simp_all
  from assms r have c: "crops_at ops img img_id xs ys (segment_centres seg) = Inr crops"
    by (simp add: segment_crops_def)
  show "\<exists>x y. py_int (fst (segment_centre seg (segment_ids seg ! k))) = Inr x \<and>
                py_int (snd (segment_centre seg (segment_ids seg ! k))) = Inr y \<and>
                crop_center ops img x y xs ys img_id = Inr (crops ! k)" if "k < length crops" for k
  proof -
    from that len have k: "k < length (segment_centres seg)" by (simp add: segment_centres_def)
    have "segment_centres seg ! k = segment_centre seg (segment_ids seg ! k)"
      using that len by (simp add: segment_centres_def)
    with crops_at_Inr [OF c] k show ?thesis by fastforce
  qed
qed

theorem segment_crops_one_per_label_witness:
  "\<exists>crops. segment_crops (echo_ops [[[0, 3], [7, 3]]]) () ''image'' ''segmented'' None None = Inr crops \<and>
      length crops = 2 \<and> segment_ids [[[0, 3], [7, 3]]] ! 0 < segment_ids [[[0, 3], [7, 3]]] ! 1"
proof -
  let ?S = "[[[0, 3], [7, 3]]] :: label_layer"
  have dg: "data_get (echo_ops ?S) () ''segmented'' = Inr ?S"
    by (simp add: echo_ops_def)
  note t = segment_crops_one_per_label [OF dg, where img_id = "''image''" and xs = None and ys = None]
  have "\<forall>x y. \<exists>c. crop_center (echo_ops ?S) () x y None None ''image'' = Inr c"
    by (simp add: echo_ops_def)
  with t obtain crops where
    r: "segment_crops (echo_ops ?S) () ''image'' ''segmented'' None None = Inr crops"
    by blast
  have l: "layer_labels ?S - {0} = {3, 7}" by (auto simp: layer_labels_def)
  from t r have n: "length crops = card (layer_labels ?S - {0})" by blast
  then have n2: "length crops = 2" by (simp add: l)
  from t r have "\<forall>j k. j < k \<and> k < length crops \<longrightarrow> segment_ids ?S ! j < segment_ids ?S ! k"
    by blast
  with n2 have "segment_ids ?S ! 0 < segment_ids ?S ! 1" by simp
  with r n2 show ?thesis by blast
qed

section \<open>Properties of the backends\<close>

subsection \<open>Unrecognized blob method\<close>

text \<open>
  Claim C8. When the model of the blob variant is none of \<^verbatim>\<open>"log"\<close>, \<^verbatim>\<open>"dog"\<close>, \<^verbatim>\<open>"doh"\<close>, its
  segmentation raises the \<^verbatim>\<open>ValueError\<close> whose message ends in the offending value (the name
  itself, for a name), through \<^verbatim>\<open>_segment\<close> and through the method \<^verbatim>\<open>segment\<close> of the base class
  alike. No blob routine is invoked: the result is the same whatever the three routines are,
  also when each of them would raise.
\<close>

theorem Blob_segment_unrecognized:
  assumes "model \<noteq> PyStr ''log''" and "model \<noteq> PyStr ''dog''" and "model \<noteq> PyStr ''doh''"
  shows "Blob_segment bops model img kwargs =
           Inl (ValueError (''did not recognize self.model '' @ py_str bops model)) \<and>
         SegmentationModel_segment bops (SegmentationModelBlob model) img kwargs =
           Inl (ValueError (''did not recognize self.model '' @ py_str bops model)) \<and>
         (\<forall>f g h. Blob_segment (bops\<lparr>blob_log := f, blob_dog := g, blob_doh := h\<rparr>) model img kwargs =
           Blob_segment bops model img kwargs) \<and>
         (\<forall>name. model = PyStr name \<longrightarrow> py_str bops model = name)"
proof -
  have a: "Blob_segment b model img kwargs =
           Inl (ValueError (''did not recognize self.model '' @ py_str b model))" for b :: "('a, 'b) backend_ops"
    using assms by (simp add: Blob_segment_def Let_def)
  have p: "py_str (bops\<lparr>blob_log := f, blob_dog := g, blob_doh := h\<rparr>) model = py_str bops model" for f g h
    by (cases model) (simp_all add: py_str_def)
  show ?thesis
  proof (intro conjI allI impI)
    show "Blob_segment bops model img kwargs =
           Inl (ValueError (''did not recognize self.model '' @ py_str bops model))"
      by (rule a)
    show "SegmentationModel_segment bops (SegmentationModelBlob model) img kwargs =
           Inl (ValueError (''did not recognize self.model '' @ py_str bops model))"
      by (simp add: SegmentationModel_segment_def a)
    show "Blob_segment (bops\<lparr>blob_log := f, blob_dog := g, blob_doh := h\<rparr>) model img kwargs =
           Blob_segment bops model img kwargs" for f g h
      by (simp only: a p)
    show "py_str bops model = name" if "model = PyStr name" for name
      using that by (simp add: py_str_def)
  qed
qed

theorem Blob_segment_unrecognized_witness:
  "Blob_segment probe_ops (PyStr ''xyz'') (NDArray [1, 2] [Finite 1, Finite 2])
     \<lparr>kw_invert = None, kw_thresh = None, kw_geq = None, kw_rest = ()\<rparr> =
     Inl (ValueError ''did not recognize self.model xyz'') \<and>
   blob_log probe_ops (NDArray [1, 2] [Finite 1, Finite 2])
     \<lparr>kw_invert = None, kw_thresh = None, kw_geq = None, kw_rest = ()\<rparr> =
     Inl (Raised ''blob_log called'')"
proof -
  have h: "PyStr ''xyz'' \<noteq> (PyStr ''log'' :: unit model_instance)"
    "PyStr ''xyz'' \<noteq> (PyStr ''dog'' :: unit model_instance)"
    "PyStr ''xyz'' \<noteq> (PyStr ''doh'' :: unit model_instance)"
    by simp_all
  from Blob_segment_unrecognized [OF h, of probe_ops "NDArray [1, 2] [Finite 1, Finite 2]"
      "\<lparr>kw_invert = None, kw_thresh = None, kw_geq = None, kw_rest = ()\<rparr>"]
  have "Blob_segment probe_ops (PyStr ''xyz'') (NDArray [1, 2] [Finite 1, Finite 2])
     \<lparr>kw_invert = None, kw_thresh = None, kw_geq = None, kw_rest = ()\<rparr> =
     Inl (ValueError (''did not recognize self.model '' @ py_str probe_ops (PyStr ''xyz'')))"
    by (elim conjE)
  then show ?thesis by (simp add: py_str_def probe_ops_def)
qed

subsection \<open>The watershed variant\<close>









section \<open>Properties of \<^verbatim>\<open>segment\<close>\<close>

subsection \<open>Unrecognized backend selector\<close>

text \<open>
  Claim C7, with the call of the enumeration class modelled from the specification. When the
  selector is not one of the three variants \<open>BLOB\<close>, \<open>WATERSHED\<close>, \<open>TENSORFLOW\<close>, \<^verbatim>\<open>segment\<close> fails
  with \<^verbatim>\<open>NotImplementedError\<close> naming the offending value (the selector itself when it resolves
  to no member, the member when it resolves to one outside the three, line 240) and leaves the
  container as it was. No crop is read and no other work is done: the outcome is the same
  whatever \<open>crop_equally\<close>, the channel selection, the stitcher and \<open>add_img\<close> are, also when they
  raise or change the container.
\<close>

theorem segment_unrecognized_backend:
  assumes "variant_of model_group \<noteq> Some BLOB"
    and "variant_of model_group \<noteq> Some WATERSHED"
    and "variant_of model_group \<noteq> Some TENSORFLOW"
  shows "segment (sops\<lparr>SegmentationBackend_call := spec_SegmentationBackend_call variant_of\<rparr>)
           bops img img_id model_group model_instance model_kwargs channel_idx xs ys key_added =
           (img, Inl (NotImplementedError (case variant_of model_group of
                                             None \<Rightarrow> Selector model_group
                                           | Some g \<Rightarrow> Member g))) \<and>
         (\<forall>f s u a.
            segment (sops\<lparr>SegmentationBackend_call := spec_SegmentationBackend_call variant_of,
                          crop_equally := f, select_channels := s, uncrop_img := u, add_img := a\<rparr>)
              bops img img_id model_group model_instance model_kwargs channel_idx xs ys key_added =
            (img, Inl (NotImplementedError (case variant_of model_group of
                                              None \<Rightarrow> Selector model_group
                                            | Some g \<Rightarrow> Member g))))"
proof -
  have a: "segment so bops img img_id model_group model_instance model_kwargs channel_idx xs ys key_added =
           (img, Inl (NotImplementedError (case variant_of model_group of
                                             None \<Rightarrow> Selector model_group
                                           | Some g \<Rightarrow> Member g)))"
    if "SegmentationBackend_call so = spec_SegmentationBackend_call variant_of"
    for so :: "('a, 'b, 'c) segment_ops"
  proof (cases "variant_of model_group")
    case None
    with that show ?thesis by (simp add: segment_def spec_SegmentationBackend_call_def)
  next
    case (Some g)
    with assms have "g \<noteq> BLOB" and "g \<noteq> WATERSHED" and "g \<noteq> TENSORFLOW" by simp_all
    then have "make_model bops g model_instance = Inl (NotImplementedError (Member g))"
      by (simp add: make_model_def)
    with Some that show ?thesis by (simp add: segment_def spec_SegmentationBackend_call_def)
  qed
  show ?thesis
  proof (intro conjI allI)
    show "segment (sops\<lparr>SegmentationBackend_call := spec_SegmentationBackend_call variant_of\<rparr>)
           bops img img_id model_group model_instance model_kwargs channel_idx xs ys key_added =
           (img, Inl (NotImplementedError (case variant_of model_group of
                                             None \<Rightarrow> Selector model_group
                                           | Some g \<Rightarrow> Member g)))"
      by (rule a) simp
    fix f s u a'
    show "segment (sops\<lparr>SegmentationBackend_call := spec_SegmentationBackend_call variant_of,
                          crop_equally := f, select_channels := s, uncrop_img := u, add_img := a'\<rparr>)
              bops img img_id model_group model_instance model_kwargs channel_idx xs ys key_added =
            (img, Inl (NotImplementedError (case variant_of model_group of
                                              None \<Rightarrow> Selector model_group
                                            | Some g \<Rightarrow> Member g)))"
      by (rule a) simp
  qed
qed

text \<open>
  The selector \<^verbatim>\<open>nonsense\<close> with the table of three names: the call fails with
  \<^verbatim>\<open>NotImplementedError\<close> naming \<^verbatim>\<open>nonsense\<close>, \<open>crop_equally\<close> is not called and the container is
  not marked as changed.
\<close>

theorem segment_unrecognized_backend_witness:
  "segment trace_ops probe_ops False ''image'' ''nonsense'' PyNone
     \<lparr>kw_invert = None, kw_thresh = None, kw_geq = None, kw_rest = ()\<rparr> None None None None =
   (False, Inl (NotImplementedError (Selector ''nonsense''))) \<and>
   crop_equally trace_ops False None None ''image'' = Inl (Raised ''crop_equally called'')"
proof -
  have h: "three_variants ''nonsense'' \<noteq> Some BLOB"
    "three_variants ''nonsense'' \<noteq> Some WATERSHED"
    "three_variants ''nonsense'' \<noteq> Some TENSORFLOW"
    by (simp_all add: three_variants_def)
  have t: "trace_ops\<lparr>SegmentationBackend_call := spec_SegmentationBackend_call three_variants\<rparr> = trace_ops"
    by (simp add: trace_ops_def)
  have n: "three_variants ''nonsense'' = None" by (simp add: three_variants_def)
  note u = segment_unrecognized_backend [where variant_of = three_variants
      and model_group = "''nonsense''" and sops = trace_ops and bops = probe_ops and img = False
      and img_id = "''image''" and model_instance = PyNone
      and model_kwargs = "\<lparr>kw_invert = None, kw_thresh = None, kw_geq = None, kw_rest = ()\<rparr>"
      and channel_idx = None and xs = None and ys = None and key_added = None]
  from u [OF h, THEN conjunct1]
  have "segment trace_ops probe_ops False ''image'' ''nonsense'' PyNone
     \<lparr>kw_invert = None, kw_thresh = None, kw_geq = None, kw_rest = ()\<rparr> None None None None =
   (False, Inl (NotImplementedError (Selector ''nonsense'')))"
    by (simp add: t n)
  moreover have "crop_equally trace_ops False None None ''image'' = Inl (Raised ''crop_equally called'')"
    by (simp add: trace_ops_def)
  ultimately show ?thesis by (rule conjI)
qed

subsection \<open>A failing backend\<close>

lemma segment_all_fails:
  assumes "k < length crops"
    and "\<forall>j < k. \<exists>l. segment_one sops bops sm cs kw (crops ! j) = Inr l"
    and "segment_one sops bops sm cs kw (crops ! k) = Inl e"
  shows "segment_all sops bops sm cs kw crops = Inl e"
  using assms
proof (induction crops arbitrary: k)
  case Nil
  then show ?case by simp
next
  case (Cons x crops)
  show ?case
  proof (cases k)
    case 0
    with Cons.prems(3) show ?thesis by simp
  next
    case (Suc k')
    from Cons.prems(2) Suc obtain l where l: "segment_one sops bops sm cs kw x = Inr l"
      by fastforce
    have a: "k' < length crops" using Cons.prems(1) Suc by simp
    have b: "\<forall>j < k'. \<exists>l. segment_one sops bops sm cs kw (crops ! j) = Inr l"
    proof (intro allI impI)
      fix j assume "j < k'"
      then have "Suc j < k" using Suc by simp
      with Cons.prems(2) have "\<exists>l. segment_one sops bops sm cs kw ((x # crops) ! Suc j) = Inr l"
        by blast
      then show "\<exists>l. segment_one sops bops sm cs kw (crops ! j) = Inr l" by simp
    qed
    have c: "segment_one sops bops sm cs kw (crops ! k') = Inl e"
      using Cons.prems(3) Suc by simp
    from Cons.IH [OF a b c] l show ?thesis by simp
  qed
qed

lemma segment_all_Inr:
  "segment_all sops bops sm cs kw crops = Inr ls \<Longrightarrow>
     length ls = length crops \<and>
     (\<forall>j < length crops. segment_one sops bops sm cs kw (crops ! j) = Inr (ls ! j))"
proof (induction crops arbitrary: ls)
  case Nil
  then show ?case by simp
next
  case (Cons x crops)
  from Cons.prems obtain l rest where
    l: "segment_one sops bops sm cs kw x = Inr l" and
    r: "segment_all sops bops sm cs kw crops = Inr rest" and
    ls: "ls = l # rest"
    by (auto split: sum.splits)
  note ih = Cons.IH [OF r]
  have "segment_one sops bops sm cs kw ((x # crops) ! j) = Inr (ls ! j)"
    if "j < length (x # crops)" for j
  proof (cases j)
    case 0
    then show ?thesis using l ls by simp
  next
    case (Suc j')
    with that have "j' < length crops" by simp
    with ih show ?thesis using Suc ls by simp
  qed
  then show ?case using ih ls by simp
qed

lemma segment_fails_with_backend:
  assumes "SegmentationBackend_call sops model_group = Inr g"
    and "make_model bops g model_instance = Inr sm"
    and "crop_equally sops img xs ys img_id = Inr (crops, xcoord, ycoord)"
    and "channel_slice_of sops crops channel_idx = Inr cs"
    and "segment_all sops bops sm cs model_kwargs crops = Inl e"
  shows "segment sops bops img img_id model_group model_instance model_kwargs channel_idx xs ys key_added =
           (img, Inl e)"
  using assms by (simp add: segment_def)

lemma segment_one_update:
  "segment_one (sops\<lparr>uncrop_img := u, add_img := a\<rparr>) bops sm cs kw x = segment_one sops bops sm cs kw x"
  by (simp add: segment_one_def)

lemma channel_slice_of_update:
  "channel_slice_of (sops\<lparr>uncrop_img := u, add_img := a\<rparr>) crops channel_idx =
     channel_slice_of sops crops channel_idx"
  by (simp add: channel_slice_of_def split: option.splits list.splits)

lemma segment_all_update:
  "segment_all (sops\<lparr>uncrop_img := u, add_img := a\<rparr>) bops sm cs kw crops =
     segment_all sops bops sm cs kw crops"
  by (induction crops) (simp_all add: segment_one_update split: sum.splits)

lemma segment_outcomes:
  assumes "segment sops bops img img_id model_group model_instance model_kwargs channel_idx xs ys key_added =
             (img', out)"
  shows "(img' = img \<and> (\<exists>e. out = Inl e)) \<or>
         (\<exists>g sm crops xcoord ycoord cs ls counter ds merged.
            SegmentationBackend_call sops model_group = Inr g \<and>
            make_model bops g model_instance = Inr sm \<and>
            crop_equally sops img xs ys img_id = Inr (crops, xcoord, ycoord) \<and>
            channel_slice_of sops crops channel_idx = Inr cs \<and>
            segment_all sops bops sm cs model_kwargs crops = Inr ls \<and>
            reconcile (label_dtype bops) 0 ls = Inr (counter, ds) \<and>
            uncrop_img sops ds xcoord ycoord (rev (img_shape sops img)) ''mask'' = Inr merged \<and>
            (img', out) = add_img sops img merged
               (case key_added of None \<Rightarrow> ''segmented_'' @ enum_s sops g | Some k \<Rightarrow> k) ''mask'')"
proof (cases "SegmentationBackend_call sops model_group")
  case (Inl e)
  with assms show ?thesis by (auto simp: segment_def)
next
  case g: (Inr g)
  show ?thesis
  proof (cases "make_model bops g model_instance")
    case (Inl e)
    with assms g show ?thesis by (auto simp: segment_def)
  next
    case sm: (Inr sm)
    show ?thesis
    proof (cases "crop_equally sops img xs ys img_id")
      case (Inl e)
      with assms g sm show ?thesis by (auto simp: segment_def)
    next
      case (Inr t)
      then obtain crops xcoord ycoord where
        ce: "crop_equally sops img xs ys img_id = Inr (crops, xcoord, ycoord)"
        by (cases t) auto
      show ?thesis
      proof (cases "channel_slice_of sops crops channel_idx")
        case (Inl e)
        with assms g sm ce show ?thesis by (auto simp: segment_def)
      next
        case cs: (Inr cs)
        show ?thesis
        proof (cases "segment_all sops bops sm cs model_kwargs crops")
          case (Inl e)
          with assms g sm ce cs show ?thesis by (auto simp: segment_def)
        next
          case ls: (Inr ls)
          show ?thesis
          proof (cases "reconcile (label_dtype bops) 0 ls")
            case (Inl e)
            with assms g sm ce cs ls show ?thesis by (auto simp: segment_def)
          next
            case (Inr t')
            then obtain counter ds where rc: "reconcile (label_dtype bops) 0 ls = Inr (counter, ds)"
              by (cases t') auto
            show ?thesis
            proof (cases "uncrop_img sops ds xcoord ycoord (rev (img_shape sops img)) ''mask''")
              case (Inl e)
              with assms g sm ce cs ls rc show ?thesis by (auto simp: segment_def)
            next
              case (Inr merged)
              with assms g sm ce cs ls rc have
                "(img', out) = add_img sops img merged
                   (case key_added of None \<Rightarrow> ''segmented_'' @ enum_s sops g | Some k \<Rightarrow> k) ''mask''"
                by (simp add: segment_def)
              with g sm ce cs ls rc Inr show ?thesis by blast
            qed
          qed
        qed
      qed
    qed
  qed
qed

text \<open>
  Claim C9. If the backend raises on a crop (the crops before it having been segmented),
  \<^verbatim>\<open>segment\<close> ends with that exception and the container is as it was, whatever the stitcher
  and \<open>add_img\<close> are: neither is called. And in every run of \<^verbatim>\<open>segment\<close>, either the call ends
  with an exception and the container unchanged, or the container and the outcome are those
  of the one call of \<open>add_img\<close>, made after the backend has returned a label array for every
  crop, the reconciliation has completed and the stitcher has returned the merged array.
\<close>

theorem segment_backend_failure:
  "(\<forall>g sm crops xcoord ycoord cs k e.
      SegmentationBackend_call sops model_group = Inr g \<and>
      make_model bops g model_instance = Inr sm \<and>
      crop_equally sops img xs ys img_id = Inr (crops, xcoord, ycoord) \<and>
      channel_slice_of sops crops channel_idx = Inr cs \<and>
      k < length crops \<and>
      (\<forall>j < k. \<exists>l. segment_one sops bops sm cs model_kwargs (crops ! j) = Inr l) \<and>
      segment_one sops bops sm cs model_kwargs (crops ! k) = Inl e \<longrightarrow>
        segment sops bops img img_id model_group model_instance model_kwargs channel_idx xs ys key_added =
          (img, Inl e) \<and>
        (\<forall>u a. segment (sops\<lparr>uncrop_img := u, add_img := a\<rparr>) bops img img_id model_group
                  model_instance model_kwargs channel_idx xs ys key_added = (img, Inl e))) \<and>
   (\<forall>img' out.
      segment sops bops img img_id model_group model_instance model_kwargs channel_idx xs ys key_added =
        (img', out) \<longrightarrow>
      (img' = img \<and> (\<exists>e. out = Inl e)) \<or>
      (\<exists>g sm crops xcoord ycoord cs ls counter ds merged.
         SegmentationBackend_call sops model_group = Inr g \<and>
         make_model bops g model_instance = Inr sm \<and>
         crop_equally sops img xs ys img_id = Inr (crops, xcoord, ycoord) \<and>
         channel_slice_of sops crops channel_idx = Inr cs \<and>
         length ls = length crops \<and>
         (\<forall>j < length crops. segment_one sops bops sm cs model_kwargs (crops ! j) = Inr (ls ! j)) \<and>
         reconcile (label_dtype bops) 0 ls = Inr (counter, ds) \<and>
         uncrop_img sops ds xcoord ycoord (rev (img_shape sops img)) ''mask'' = Inr merged \<and>
         (img', out) = add_img sops img merged
            (case key_added of None \<Rightarrow> ''segmented_'' @ enum_s sops g | Some k \<Rightarrow> k) ''mask''))"
proof (rule conjI)
  show "\<forall>g sm crops xcoord ycoord cs k e.
      SegmentationBackend_call sops model_group = Inr g \<and>
      make_model bops g model_instance = Inr sm \<and>
      crop_equally sops img xs ys img_id = Inr (crops, xcoord, ycoord) \<and>
      channel_slice_of sops crops channel_idx = Inr cs \<and>
      k < length crops \<and>
      (\<forall>j < k. \<exists>l. segment_one sops bops sm cs model_kwargs (crops ! j) = Inr l) \<and>
      segment_one sops bops sm cs model_kwargs (crops ! k) = Inl e \<longrightarrow>
        segment sops bops img img_id model_group model_instance model_kwargs channel_idx xs ys key_added =
          (img, Inl e) \<and>
        (\<forall>u a. segment (sops\<lparr>uncrop_img := u, add_img := a\<rparr>) bops img img_id model_group
                  model_instance model_kwargs channel_idx xs ys key_added = (img, Inl e))"
  proof (intro allI impI)
    fix g sm crops xcoord ycoord cs k e
    assume h: "SegmentationBackend_call sops model_group = Inr g \<and>
      make_model bops g model_instance = Inr sm \<and>
      crop_equally sops img xs ys img_id = Inr (crops, xcoord, ycoord) \<and>
      channel_slice_of sops crops channel_idx = Inr cs \<and>
      k < length crops \<and>
      (\<forall>j < k. \<exists>l. segment_one sops bops sm cs model_kwargs (crops ! j) = Inr l) \<and>
      segment_one sops bops sm cs model_kwargs (crops ! k) = Inl e"
    then have g: "SegmentationBackend_call sops model_group = Inr g"
      and sm: "make_model bops g model_instance = Inr sm"
      and ce: "crop_equally sops img xs ys img_id = Inr (crops, xcoord, ycoord)"
      and cs: "channel_slice_of sops crops channel_idx = Inr cs"
      and k: "k < length crops"
      and before: "\<forall>j < k. \<exists>l. segment_one sops bops sm cs model_kwargs (crops ! j) = Inr l"
      and at: "segment_one sops bops sm cs model_kwargs (crops ! k) = Inl e"
      by simp_all
    have sa: "segment_all sops bops sm cs model_kwargs crops = Inl e"
      by (rule segment_all_fails [OF k before at])
    have one: "segment sops bops img img_id model_group model_instance model_kwargs channel_idx xs ys key_added =
          (img, Inl e)"
      by (rule segment_fails_with_backend [OF g sm ce cs sa])
    have two: "segment (sops\<lparr>uncrop_img := u, add_img := a\<rparr>) bops img img_id model_group
                  model_instance model_kwargs channel_idx xs ys key_added = (img, Inl e)" for u a
    proof (rule segment_fails_with_backend)
      show "SegmentationBackend_call (sops\<lparr>uncrop_img := u, add_img := a\<rparr>) model_group = Inr g"
        using g by simp
      show "make_model bops g model_instance = Inr sm" by (rule sm)
      show "crop_equally (sops\<lparr>uncrop_img := u, add_img := a\<rparr>) img xs ys img_id = Inr (crops, xcoord, ycoord)"
        using ce by simp
      show "channel_slice_of (sops\<lparr>uncrop_img := u, add_img := a\<rparr>) crops channel_idx = Inr cs"
        using cs by (simp add: channel_slice_of_update)
      show "segment_all (sops\<lparr>uncrop_img := u, add_img := a\<rparr>) bops sm cs model_kwargs crops = Inl e"
        using sa by (simp add: segment_all_update)
    qed
    from one two show "segment sops bops img img_id model_group model_instance model_kwargs channel_idx xs ys key_added =
          (img, Inl e) \<and>
        (\<forall>u a. segment (sops\<lparr>uncrop_img := u, add_img := a\<rparr>) bops img img_id model_group
                  model_instance model_kwargs channel_idx xs ys key_added = (img, Inl e))"
      by blast
  qed
next
  show "\<forall>img' out.
      segment sops bops img img_id model_group model_instance model_kwargs channel_idx xs ys key_added =
        (img', out) \<longrightarrow>
      (img' = img \<and> (\<exists>e. out = Inl e)) \<or>
      (\<exists>g sm crops xcoord ycoord cs ls counter ds merged.
         SegmentationBackend_call sops model_group = Inr g \<and>
         make_model bops g model_instance = Inr sm \<and>
         crop_equally sops img xs ys img_id = Inr (crops, xcoord, ycoord) \<and>
         channel_slice_of sops crops channel_idx = Inr cs \<and>
         length ls = length crops \<and>
         (\<forall>j < length crops. segment_one sops bops sm cs model_kwargs (crops ! j) = Inr (ls ! j)) \<and>
         reconcile (label_dtype bops) 0 ls = Inr (counter, ds) \<and>
         uncrop_img sops ds xcoord ycoord (rev (img_shape sops img)) ''mask'' = Inr merged \<and>
         (img', out) = add_img sops img merged
            (case key_added of None \<Rightarrow> ''segmented_'' @ enum_s sops g | Some k \<Rightarrow> k) ''mask'')"
  proof (intro allI impI)
    fix img' out
    assume r: "segment sops bops img img_id model_group model_instance model_kwargs channel_idx xs ys key_added =
        (img', out)"
    from segment_outcomes [OF r] show "(img' = img \<and> (\<exists>e. out = Inl e)) \<or>
      (\<exists>g sm crops xcoord ycoord cs ls counter ds merged.
         SegmentationBackend_call sops model_group = Inr g \<and>
         make_model bops g model_instance = Inr sm \<and>
         crop_equally sops img xs ys img_id = Inr (crops, xcoord, ycoord) \<and>
         channel_slice_of sops crops channel_idx = Inr cs \<and>
         length ls = length crops \<and>
         (\<forall>j < length crops. segment_one sops bops sm cs model_kwargs (crops ! j) = Inr (ls ! j)) \<and>
         reconcile (label_dtype bops) 0 ls = Inr (counter, ds) \<and>
         uncrop_img sops ds xcoord ycoord (rev (img_shape sops img)) ''mask'' = Inr merged \<and>
         (img', out) = add_img sops img merged
            (case key_added of None \<Rightarrow> ''segmented_'' @ enum_s sops g | Some k \<Rightarrow> k) ''mask'')"
    proof
      assume "img' = img \<and> (\<exists>e. out = Inl e)"
      then show ?thesis by (rule disjI1)
    next
      assume "\<exists>g sm crops xcoord ycoord cs ls counter ds merged.
            SegmentationBackend_call sops model_group = Inr g \<and>
            make_model bops g model_instance = Inr sm \<and>
            crop_equally sops img xs ys img_id = Inr (crops, xcoord, ycoord) \<and>
            channel_slice_of sops crops channel_idx = Inr cs \<and>
            segment_all sops bops sm cs model_kwargs crops = Inr ls \<and>
            reconcile (label_dtype bops) 0 ls = Inr (counter, ds) \<and>
            uncrop_img sops ds xcoord ycoord (rev (img_shape sops img)) ''mask'' = Inr merged \<and>
            (img', out) = add_img sops img merged
               (case key_added of None \<Rightarrow> ''segmented_'' @ enum_s sops g | Some k \<Rightarrow> k) ''mask''"
      then obtain g sm crops xcoord ycoord cs ls counter ds merged where
        g: "SegmentationBackend_call sops model_group = Inr g" and
        sm: "make_model bops g model_instance = Inr sm" and
        ce: "crop_equally sops img xs ys img_id = Inr (crops, xcoord, ycoord)" and
        cs: "channel_slice_of sops crops channel_idx = Inr cs" and
        sa: "segment_all sops bops sm cs model_kwargs crops = Inr ls" and
        rc: "reconcile (label_dtype bops) 0 ls = Inr (counter, ds)" and
        un: "uncrop_img sops ds xcoord ycoord (rev (img_shape sops img)) ''mask'' = Inr merged" and
        ad: "(img', out) = add_img sops img merged
               (case key_added of None \<Rightarrow> ''segmented_'' @ enum_s sops g | Some k \<Rightarrow> k) ''mask''"
        by (elim exE conjE) (rule that)
      from segment_all_Inr [OF sa] have
        len: "length ls = length crops" and
        each: "\<forall>j < length crops. segment_one sops bops sm cs model_kwargs (crops ! j) = Inr (ls ! j)"
        by simp_all
      show ?thesis
        by (rule disjI2, intro exI conjI)
           (rule g, rule sm, rule ce, rule cs, rule len, rule each, rule rc, rule un, rule ad)
    qed
  qed
qed

text \<open>
  Two crops and the blob backend \<^verbatim>\<open>log\<close>, whose routine succeeds on the first crop and raises
  on the second: the call ends with the exception of the routine and the container is not
  marked as changed.
\<close>

theorem segment_backend_failure_witness:
  "segment two_crop_ops failing_blob_ops False ''image'' ''blob'' (PyStr ''log'')
     \<lparr>kw_invert = None, kw_thresh = None, kw_geq = None, kw_rest = ()\<rparr> None None None None =
     (False, Inl (Raised ''blob_log failed'')) \<and>
   segment_one two_crop_ops failing_blob_ops (SegmentationModelBlob (PyStr ''log'')) (Slice 0 1)
     \<lparr>kw_invert = None, kw_thresh = None, kw_geq = None, kw_rest = ()\<rparr> 0 = Inr [[0, 1]]"
proof -
  let ?kw = "\<lparr>kw_invert = None, kw_thresh = None, kw_geq = None, kw_rest = ()\<rparr>"
  let ?sm = "SegmentationModelBlob (PyStr ''log'') :: unit segmentation_model"
  let ?crops = "[0, 1] :: nat list"
  have g: "SegmentationBackend_call two_crop_ops ''blob'' = Inr BLOB"
    by (simp add: two_crop_ops_def)
  have sm: "make_model failing_blob_ops BLOB (PyStr ''log'') = Inr ?sm"
    by (simp add: make_model_def)
  have ce: "crop_equally two_crop_ops False None None ''image'' = Inr (?crops, [0, 0], [0, 1])"
    by (simp add: two_crop_ops_def)
  have cs: "channel_slice_of two_crop_ops ?crops None = Inr (Slice 0 1)"
    by (simp add: channel_slice_of_def two_crop_ops_def)
  have s0: "segment_one two_crop_ops failing_blob_ops ?sm (Slice 0 1) ?kw 0 = Inr [[0, 1]]"
    by (simp add: segment_one_def two_crop_ops_def SegmentationModel_segment_def Blob_segment_def
        failing_blob_ops_def probe_ops_def)
  have s1: "segment_one two_crop_ops failing_blob_ops ?sm (Slice 0 1) ?kw 1 =
      Inl (Raised ''blob_log failed'')"
    by (simp add: segment_one_def two_crop_ops_def SegmentationModel_segment_def Blob_segment_def
        failing_blob_ops_def probe_ops_def)
  have k: "(1::nat) < length ?crops" by simp
  have before: "\<forall>j < (1::nat). \<exists>l. segment_one two_crop_ops failing_blob_ops ?sm (Slice 0 1) ?kw (?crops ! j) = Inr l"
    using s0 by simp
  have at: "segment_one two_crop_ops failing_blob_ops ?sm (Slice 0 1) ?kw (?crops ! 1) =
      Inl (Raised ''blob_log failed'')"
    using s1 by simp
  note t = segment_backend_failure [where sops = two_crop_ops and bops = failing_blob_ops
      and img = False and img_id = "''image''" and model_group = "''blob''"
      and model_instance = "PyStr ''log''" and model_kwargs = ?kw and channel_idx = None
      and xs = None and ys = None and key_added = None, THEN conjunct1, rule_format,
      of BLOB ?sm ?crops "[0, 0]" "[0, 1]" "Slice 0 1" 1 "Raised ''blob_log failed''"]
  from t g sm ce cs k before at
  have "segment two_crop_ops failing_blob_ops False ''image'' ''blob'' (PyStr ''log'') ?kw
          None None None None = (False, Inl (Raised ''blob_log failed''))"
    by blast
  then show ?thesis using s0 by (rule conjI)
qed

end
